theory Spec2Isabelle
  imports Complex_Main
begin

section \<open>Tensor elements\<close>

text \<open>
  The observation terms of \<^verbatim>\<open>observations.py\<close> compute on floating-point tensors and
  branch on \<^verbatim>\<open>torch.isnan\<close> and \<^verbatim>\<open>torch.isinf\<close>. A tensor element is modelled as a
  finite real number or one of the three special values. Finite arithmetic is exact:
  rounding, overflow of finite operands and the sign of zero are not modelled. The
  special values follow IEEE 754: \<open>NaN\<close> is absorbing, every ordered comparison with
  \<open>NaN\<close> is false, \<open>\<infinity> - \<infinity>\<close> and \<open>0 * \<infinity>\<close> are \<open>NaN\<close>.
\<close>

datatype fl = NaN | NInf | Fin real | PInf

fun isnan :: "fl \<Rightarrow> bool" where
  "isnan NaN = True"
| "isnan _ = False"

fun isinf :: "fl \<Rightarrow> bool" where
  "isinf PInf = True"
| "isinf NInf = True"
| "isinf _ = False"

fun isfinite :: "fl \<Rightarrow> bool" where
  "isfinite (Fin _) = True"
| "isfinite _ = False"

fun fl_neg :: "fl \<Rightarrow> fl" where
  "fl_neg NaN = NaN"
| "fl_neg NInf = PInf"
| "fl_neg PInf = NInf"
| "fl_neg (Fin a) = Fin (- a)"

fun fl_add :: "fl \<Rightarrow> fl \<Rightarrow> fl" where
  "fl_add (Fin a) (Fin b) = Fin (a + b)"
| "fl_add NaN _ = NaN"
| "fl_add _ NaN = NaN"
| "fl_add PInf NInf = NaN"
| "fl_add NInf PInf = NaN"
| "fl_add PInf _ = PInf"
| "fl_add _ PInf = PInf"
| "fl_add NInf _ = NInf"
| "fl_add _ NInf = NInf"

definition fl_sub :: "fl \<Rightarrow> fl \<Rightarrow> fl" where
  "fl_sub a b = fl_add a (fl_neg b)"

text \<open>The sign of an infinite product; a zero factor gives \<open>NaN\<close>.\<close>

definition inf_times :: "bool \<Rightarrow> real \<Rightarrow> fl" where
  "inf_times pos b = (if b = 0 then NaN else if (0 < b) = pos then PInf else NInf)"

fun fl_mul :: "fl \<Rightarrow> fl \<Rightarrow> fl" where
  "fl_mul (Fin a) (Fin b) = Fin (a * b)"
| "fl_mul NaN _ = NaN"
| "fl_mul _ NaN = NaN"
| "fl_mul PInf (Fin b) = inf_times True b"
| "fl_mul NInf (Fin b) = inf_times False b"
| "fl_mul (Fin a) PInf = inf_times True a"
| "fl_mul (Fin a) NInf = inf_times False a"
| "fl_mul PInf PInf = PInf"
| "fl_mul NInf NInf = PInf"
| "fl_mul PInf NInf = NInf"
| "fl_mul NInf PInf = NInf"

fun fl_div :: "fl \<Rightarrow> fl \<Rightarrow> fl" where
  "fl_div (Fin a) (Fin b) =
     (if b = 0 then (if a = 0 then NaN else if 0 < a then PInf else NInf) else Fin (a / b))"
| "fl_div NaN _ = NaN"
| "fl_div _ NaN = NaN"
| "fl_div PInf (Fin b) = (if 0 \<le> b then PInf else NInf)"
| "fl_div NInf (Fin b) = (if 0 \<le> b then NInf else PInf)"
| "fl_div (Fin a) _ = Fin 0"
| "fl_div _ _ = NaN"

fun fl_lt :: "fl \<Rightarrow> fl \<Rightarrow> bool" where
  "fl_lt (Fin a) (Fin b) = (a < b)"
| "fl_lt NInf (Fin _) = True"
| "fl_lt NInf PInf = True"
| "fl_lt (Fin _) PInf = True"
| "fl_lt _ _ = False"

fun fl_le :: "fl \<Rightarrow> fl \<Rightarrow> bool" where
  "fl_le (Fin a) (Fin b) = (a \<le> b)"
| "fl_le NaN _ = False"
| "fl_le _ NaN = False"
| "fl_le NInf _ = True"
| "fl_le _ PInf = True"
| "fl_le _ _ = False"

text \<open>\<^verbatim>\<open>amin\<close>, \<^verbatim>\<open>max_pool2d\<close> and \<^verbatim>\<open>torch.clip\<close> propagate \<open>NaN\<close>.\<close>

definition fl_min :: "fl \<Rightarrow> fl \<Rightarrow> fl" where
  "fl_min a b = (if isnan a \<or> isnan b then NaN else if fl_lt b a then b else a)"

definition fl_max :: "fl \<Rightarrow> fl \<Rightarrow> fl" where
  "fl_max a b = (if isnan a \<or> isnan b then NaN else if fl_lt a b then b else a)"

type_synonym vec3 = "fl \<times> fl \<times> fl"
type_synonym quat = "fl \<times> fl \<times> fl \<times> fl"

section \<open>Sensor data\<close>

text \<open>
  One entry per environment instance: the ray caster's \<^verbatim>\<open>pos_w[e]\<close> and
  \<^verbatim>\<open>ray_hits_w[e]\<close>, and the robot's \<^verbatim>\<open>root_quat_w[e]\<close> (w, x, y, z). A batch is the
  list of its environments, so the leading dimension of the three tensors agrees by
  construction.
\<close>

record env_data =
  pos_w :: vec3
  ray_hits_w :: "vec3 list"
  root_quat_w :: quat

section \<open>process_lidar\<close>

definition near_clip :: real where
  "near_clip = 0.0"

definition far_clip :: real where
  "far_clip = 5.0"

definition clip :: "fl \<Rightarrow> real \<Rightarrow> real \<Rightarrow> fl" where
  "clip v lo hi = fl_min (fl_max v (Fin lo)) (Fin hi)"

text \<open>
  One element of \<^verbatim>\<open>process_lidar\<close>'s tensor: \<open>pz\<close> is \<^verbatim>\<open>pos_w[e, 2]\<close>, \<open>hz\<close> is
  \<^verbatim>\<open>ray_hits_w[e, r, 2]\<close>. The two masked assignments run in the source's order.
\<close>

definition process_lidar_elem :: "real \<Rightarrow> fl \<Rightarrow> fl \<Rightarrow> fl" where
  "process_lidar_elem offset pz hz =
     (let output = fl_sub (fl_sub pz hz) (Fin offset);
          output = (if isnan output then Fin far_clip else output);
          output = (if isinf output then Fin far_clip else output);
          output = clip output near_clip far_clip
      in fl_sub (fl_div (fl_sub output (Fin near_clip)) (Fin (far_clip - near_clip))) (Fin 0.5))"

definition process_lidar :: "env_data list \<Rightarrow> real \<Rightarrow> fl list list" where
  "process_lidar envs offset =
     map (\<lambda>env. map (\<lambda>h. process_lidar_elem offset (snd (snd (pos_w env))) (snd (snd h)))
                     (ray_hits_w env)) envs"

section \<open>Quaternion utilities\<close>

text \<open>
  \<^verbatim>\<open>math_utils.quat_mul\<close> and \<^verbatim>\<open>math_utils.quat_rotate_inverse\<close> of the simulation
  framework, on one quaternion (w, x, y, z) and one vector, with the framework's
  order of operations. The framework does not normalise its arguments.
\<close>

definition quat_mul :: "quat \<Rightarrow> quat \<Rightarrow> quat" where
  "quat_mul q1 q2 =
     (case q1 of (w1, x1, y1, z1) \<Rightarrow> case q2 of (w2, x2, y2, z2) \<Rightarrow>
        let ww = fl_mul (fl_add z1 x1) (fl_add x2 y2);
            yy = fl_mul (fl_sub w1 y1) (fl_add w2 z2);
            zz = fl_mul (fl_add w1 y1) (fl_sub w2 z2);
            xx = fl_add (fl_add ww yy) zz;
            qq = fl_mul (Fin 0.5) (fl_add xx (fl_mul (fl_sub z1 x1) (fl_sub x2 y2)));
            w = fl_add (fl_sub qq ww) (fl_mul (fl_sub z1 y1) (fl_sub y2 z2));
            x = fl_add (fl_sub qq xx) (fl_mul (fl_add x1 w1) (fl_add x2 w2));
            y = fl_add (fl_sub qq yy) (fl_mul (fl_sub w1 x1) (fl_add y2 z2));
            z = fl_add (fl_sub qq zz) (fl_mul (fl_add z1 y1) (fl_sub w2 x2))
        in (w, x, y, z))"

definition cross :: "vec3 \<Rightarrow> vec3 \<Rightarrow> vec3" where
  "cross a b =
     (case a of (a1, a2, a3) \<Rightarrow> case b of (b1, b2, b3) \<Rightarrow>
        (fl_sub (fl_mul a2 b3) (fl_mul a3 b2),
         fl_sub (fl_mul a3 b1) (fl_mul a1 b3),
         fl_sub (fl_mul a1 b2) (fl_mul a2 b1)))"

definition dot :: "vec3 \<Rightarrow> vec3 \<Rightarrow> fl" where
  "dot a b =
     (case a of (a1, a2, a3) \<Rightarrow> case b of (b1, b2, b3) \<Rightarrow>
        fl_add (fl_add (fl_mul a1 b1) (fl_mul a2 b2)) (fl_mul a3 b3))"

definition vscale :: "vec3 \<Rightarrow> fl \<Rightarrow> vec3" where
  "vscale v s = (case v of (v1, v2, v3) \<Rightarrow> (fl_mul v1 s, fl_mul v2 s, fl_mul v3 s))"

definition vadd :: "vec3 \<Rightarrow> vec3 \<Rightarrow> vec3" where
  "vadd a b =
     (case a of (a1, a2, a3) \<Rightarrow> case b of (b1, b2, b3) \<Rightarrow>
        (fl_add a1 b1, fl_add a2 b2, fl_add a3 b3))"

definition vsub :: "vec3 \<Rightarrow> vec3 \<Rightarrow> vec3" where
  "vsub a b =
     (case a of (a1, a2, a3) \<Rightarrow> case b of (b1, b2, b3) \<Rightarrow>
        (fl_sub a1 b1, fl_sub a2 b2, fl_sub a3 b3))"

definition quat_rotate_inverse :: "quat \<Rightarrow> vec3 \<Rightarrow> vec3" where
  "quat_rotate_inverse q v =
     (case q of (q_w, q_vec) \<Rightarrow>
        let a = vscale v (fl_sub (fl_mul (Fin 2.0) (fl_mul q_w q_w)) (Fin 1.0));
            b = vscale (vscale (cross q_vec v) q_w) (Fin 2.0);
            c = vscale (vscale q_vec (dot q_vec v)) (Fin 2.0)
        in vadd (vsub a b) c)"

section \<open>height_map_lidar\<close>

subsection \<open>Voxel grid parameters\<close>

definition voxel_size_xy :: real where
  "voxel_size_xy = 0.06"

definition range_x :: "real \<times> real" where
  "range_x = (- 0.8, 0.2 + 1 / 10 ^ 9)"

definition range_y :: "real \<times> real" where
  "range_y = (- 0.8, 0.8 + 1 / 10 ^ 9)"

definition range_z :: "real \<times> real" where
  "range_z = (0.0, 5.0)"

text \<open>
  \<^verbatim>\<open>torch.arange(start, end, step)\<close>: the values \<open>start + k * step\<close> for
  \<open>k < \<lceil>(end - start) / step\<rceil>\<close>.
\<close>

definition arange :: "real \<Rightarrow> real \<Rightarrow> real \<Rightarrow> real list" where
  "arange start stop step =
     map (\<lambda>k. start + real k * step) [0..<nat \<lceil>(stop - start) / step\<rceil>]"

definition x_bins :: "real list" where
  "x_bins = arange (fst range_x) (snd range_x) voxel_size_xy"

definition y_bins :: "real list" where
  "y_bins = arange (fst range_y) (snd range_y) voxel_size_xy"

subsection \<open>Hit vectors in the sensor frame\<close>

text \<open>The two masked assignments \<^verbatim>\<open>hit_vec[isinf] = 0.0\<close>, \<^verbatim>\<open>hit_vec[isnan] = 0.0\<close>.\<close>

definition sanitize :: "fl \<Rightarrow> fl" where
  "sanitize v = (let v = (if isinf v then Fin 0.0 else v) in if isnan v then Fin 0.0 else v)"

definition hit_vec :: "env_data \<Rightarrow> vec3 list" where
  "hit_vec env =
     map (\<lambda>h. case vsub h (pos_w env) of (dx, dy, dz) \<Rightarrow> (sanitize dx, sanitize dy, sanitize dz))
       (ray_hits_w env)"

definition sensor_quat_default :: quat where
  "sensor_quat_default = (Fin (- 0.131), Fin 0.0, Fin (- 0.991), Fin 0.0)"

definition sensor_quat_w :: "env_data \<Rightarrow> quat" where
  "sensor_quat_w env = quat_mul (root_quat_w env) sensor_quat_default"

definition hit_vec_lidar_frame :: "env_data \<Rightarrow> vec3 list" where
  "hit_vec_lidar_frame env = map (quat_rotate_inverse (sensor_quat_w env)) (hit_vec env)"

subsection \<open>Filtering and binning\<close>

definition valid_indices :: "vec3 \<Rightarrow> bool" where
  "valid_indices p =
     (case p of (x, y, z) \<Rightarrow>
        fl_lt (Fin (fst range_x)) x \<and> fl_le x (Fin (snd range_x)) \<and>
        fl_lt (Fin (fst range_y)) y \<and> fl_le y (Fin (snd range_y)) \<and>
        fl_le (Fin (fst range_z)) z \<and> fl_le z (Fin (snd range_z)))"

text \<open>
  \<^verbatim>\<open>torch.bucketize(v, boundaries)\<close> with \<^verbatim>\<open>right=False\<close> on ascending boundaries: the
  index of the first boundary \<open>b\<close> with \<open>v \<le> b\<close>, the number of boundaries if there is
  none.
\<close>

definition bucketize :: "fl \<Rightarrow> real list \<Rightarrow> int" where
  "bucketize v boundaries = int (length (takeWhile (\<lambda>b. fl_lt (Fin b) v) boundaries))"

definition x_index :: "vec3 \<Rightarrow> int" where
  "x_index p = bucketize (fst p) x_bins - 1"

definition y_index :: "vec3 \<Rightarrow> int" where
  "y_index p = bucketize (fst (snd p)) y_bins - 1"

text \<open>
  The boolean mask selects, in row-major order, the valid points of every environment;
  \<^verbatim>\<open>flat_env_indices\<close> carries the environment index of each selected point.
\<close>

definition selected :: "env_data list \<Rightarrow> (nat \<times> vec3) list" where
  "selected envs =
     concat (map (\<lambda>(e, env). map (Pair e) (filter valid_indices (hit_vec_lidar_frame env)))
                 (enumerate 0 envs))"

definition linear_index :: "nat \<times> vec3 \<Rightarrow> int" where
  "linear_index ep =
     int (fst ep) * int (length x_bins) * int (length y_bins)
       + x_index (snd ep) * int (length y_bins) + y_index (snd ep)"

subsection \<open>Scatter reduction\<close>

datatype error = IndexOutOfBounds | KeyError

text \<open>
  \<^verbatim>\<open>scatter_reduce_(0, index, src, reduce="amin")\<close> on a flat tensor, the initial
  values taking part in the reduction; an index outside the tensor raises.
\<close>

fun scatter_reduce_amin :: "fl list \<Rightarrow> (int \<times> fl) list \<Rightarrow> error + fl list" where
  "scatter_reduce_amin m [] = Inr m"
| "scatter_reduce_amin m ((i, v) # ivs) =
     (if i < 0 \<or> int (length m) \<le> i then Inl IndexOutOfBounds
      else scatter_reduce_amin (m[nat i := fl_min (m ! nat i) v]) ivs)"

definition map_raw :: "env_data list \<Rightarrow> error + fl list" where
  "map_raw envs =
     scatter_reduce_amin (replicate (length envs * length x_bins * length y_bins) PInf)
       (map (\<lambda>ep. (linear_index ep, snd (snd (snd ep)))) (selected envs))"

subsection \<open>Offset, threshold, reshape and pooling\<close>

definition finalize :: "real \<Rightarrow> fl \<Rightarrow> fl" where
  "finalize offset v =
     (let v = fl_sub v (Fin offset);
          v = (if fl_lt v (Fin 0.05) then Fin 0.0 else v)
      in if isinf v then Fin 0.0 else v)"

text \<open>\<^verbatim>\<open>view(n, m)\<close> of a flat tensor of \<open>n * m\<close> elements.\<close>

definition view2 :: "nat \<Rightarrow> nat \<Rightarrow> 'a list \<Rightarrow> 'a list list" where
  "view2 n m xs = map (\<lambda>i. take m (drop (i * m) xs)) [0..<n]"

definition map_2_5D :: "env_data list \<Rightarrow> real \<Rightarrow> error + fl list list list" where
  "map_2_5D envs offset =
     (case map_raw envs of
        Inl err \<Rightarrow> Inl err
      | Inr m \<Rightarrow>
          Inr (map (view2 (length x_bins) (length y_bins))
                 (view2 (length envs) (length x_bins * length y_bins) (map (finalize offset) m))))"

text \<open>
  \<^verbatim>\<open>F.max_pool2d(kernel_size=3, stride=1, padding=1)\<close> on one channel. The window of
  output cell \<open>(i, j)\<close> is rows \<open>i - 1\<close> to \<open>i + 1\<close> and columns \<open>j - 1\<close> to \<open>j + 1\<close>, cut
  at the border of the grid (truncated subtraction keeps the lower ends at 0); the
  padding counts as minus infinity.
\<close>

definition pool_window :: "fl list list \<Rightarrow> nat \<Rightarrow> nat \<Rightarrow> fl list" where
  "pool_window g i j =
     concat (map (\<lambda>i'. map (\<lambda>j'. g ! i' ! j') [j - 1..<min (j + 2) (length (g ! i'))])
                 [i - 1..<min (i + 2) (length g)])"

definition max_pool2d :: "fl list list \<Rightarrow> fl list list" where
  "max_pool2d g =
     map (\<lambda>i. map (\<lambda>j. fold fl_max (pool_window g i j) NInf) [0..<length (g ! i)])
       [0..<length g]"

text \<open>
  The observation term. \<open>offset\<close> is the term's configuration scalar, a finite number
  (0.5 by default). The result has one row per environment, each the flattened pooled
  grid.
\<close>

definition height_map_lidar :: "env_data list \<Rightarrow> real \<Rightarrow> error + fl list list" where
  "height_map_lidar envs offset =
     (case map_2_5D envs offset of
        Inl err \<Rightarrow> Inl err
      | Inr grids \<Rightarrow> Inr (map (\<lambda>g. concat (max_pool2d g)) grids))"

subsection \<open>Cells of the grid\<close>

text \<open>
  The flat position of cell \<open>(xi, yi)\<close> of environment \<open>e\<close> in the reduced tensor, and
  the selected points of an environment that are binned into that cell.
\<close>

definition flat_index :: "nat \<Rightarrow> nat \<Rightarrow> nat \<Rightarrow> nat" where
  "flat_index e xi yi = e * length x_bins * length y_bins + xi * length y_bins + yi"

definition cell_points :: "env_data \<Rightarrow> nat \<Rightarrow> nat \<Rightarrow> vec3 list" where
  "cell_points env xi yi =
     filter (\<lambda>p. valid_indices p \<and> x_index p = int xi \<and> y_index p = int yi)
       (hit_vec_lidar_frame env)"

text \<open>The \<^verbatim>\<open>amin\<close> reduction of one cell, from the initial value \<open>\<infinity>\<close>.\<close>

definition cell_amin :: "env_data \<Rightarrow> nat \<Rightarrow> nat \<Rightarrow> fl" where
  "cell_amin env xi yi = fold fl_min (map (\<lambda>p. snd (snd p)) (cell_points env xi yi)) PInf"

subsection \<open>Edits of a batch\<close>

text \<open>
  Two edits of the ray hits of environment \<open>e\<close>, used to state what one ray
  contributes: ray \<open>r\<close> reports the world point \<open>h\<close>, and ray \<open>r\<close> is taken out.
\<close>

definition replace_ray :: "env_data list \<Rightarrow> nat \<Rightarrow> nat \<Rightarrow> vec3 \<Rightarrow> env_data list" where
  "replace_ray envs e r h =
     envs[e := (envs ! e)\<lparr>ray_hits_w := (ray_hits_w (envs ! e))[r := h]\<rparr>]"

definition remove_ray :: "env_data list \<Rightarrow> nat \<Rightarrow> nat \<Rightarrow> env_data list" where
  "remove_ray envs e r =
     envs[e := (envs ! e)\<lparr>ray_hits_w :=
        take r (ray_hits_w (envs ! e)) @ drop (Suc r) (ray_hits_w (envs ! e))\<rparr>]"

subsection \<open>An example environment\<close>

text \<open>
  One environment with the sensor at the world origin and the robot at the identity
  orientation, so that the sensor orientation is \<^verbatim>\<open>sensor_quat_default\<close>; its rays are
  given. The examples below use it.
\<close>

definition example_env :: "vec3 list \<Rightarrow> env_data" where
  "example_env hs =
     \<lparr>pos_w = (Fin 0, Fin 0, Fin 0), ray_hits_w = hs, root_quat_w = (Fin 1, Fin 0, Fin 0, Fin 0)\<rparr>"

text \<open>
  The world points that the example environment sees at the sensor-frame points
  \<open>(0, 0, 1.2)\<close> and \<open>(0, 0, 0.3)\<close>, and a world point that it sees outside the grid.
\<close>

definition straight_hit :: vec3 where
  "straight_hit =
     (Fin (1.2 * 0.259642 / 0.999947967848), Fin 0, Fin (- (1.2 * 0.965678 / 0.999947967848)))"

definition low_hit :: vec3 where
  "low_hit =
     (Fin (0.3 * 0.259642 / 0.999947967848), Fin 0, Fin (- (0.3 * 0.965678 / 0.999947967848)))"

definition far_hit :: vec3 where
  "far_hit = (Fin 10, Fin 0, Fin 0)"

text \<open>The sensor-frame point that the example environment computes for a world point.\<close>

definition example_point :: "vec3 \<Rightarrow> vec3" where
  "example_point h =
     quat_rotate_inverse (sensor_quat_w (example_env []))
       (case vsub h (pos_w (example_env [])) of (dx, dy, dz) \<Rightarrow> (sanitize dx, sanitize dy, sanitize dz))"

subsection \<open>The right-open reading of the bins\<close>

text \<open>
  The bin index under a right-open convention, in which bin \<open>k\<close> is the interval from
  edge \<open>k\<close> (included) to edge \<open>k + 1\<close> (excluded): the number of edges that do not
  exceed the value, minus one. It is stated here to be compared with \<open>x_index\<close>.
\<close>

definition right_open_bin :: "real \<Rightarrow> real list \<Rightarrow> int" where
  "right_open_bin v boundaries = int (length (takeWhile (\<lambda>b. b \<le> v) boundaries)) - 1"

section \<open>Ambient state\<close>

text \<open>
  What a call of \<^verbatim>\<open>height_map_lidar\<close> can reach besides its arguments: a store of
  objects, one of which holds the buffers of the scene that the call reads
  (\<^verbatim>\<open>sensor.data\<close> and the robot's \<^verbatim>\<open>root_quat_w\<close>), and the module-level deque
  \<^verbatim>\<open>prev_height_maps\<close> (\<^verbatim>\<open>maxlen=10\<close>). Addresses are positions in the store; a new
  tensor is allocated at the end. The call below follows the statements of the source
  that create or overwrite a tensor: the subtraction \<^verbatim>\<open>ray_hits_w - pos_w\<close> and
  \<^verbatim>\<open>torch.full\<close> allocate, the two masked assignments and \<^verbatim>\<open>scatter_reduce_\<close> write in
  place (the \<^verbatim>\<open>view\<close> they go through shares the tensor written). The statements that
  appended to the deque and read it back are commented out in the source, so the call
  has none. A sensor name that is not in the scene raises.
\<close>

datatype object = Buffers "env_data list" | Points "vec3 list list" | Flat "fl list"

record ambient =
  store :: "object list"
  prev_height_maps :: "fl list list list"

definition alloc :: "object \<Rightarrow> object list \<Rightarrow> nat \<times> object list" where
  "alloc ob st = (length st, st @ [ob])"

definition fill :: "(fl \<Rightarrow> bool) \<Rightarrow> fl \<Rightarrow> fl" where
  "fill cond v = (if cond v then Fin 0.0 else v)"

definition masked_fill :: "(fl \<Rightarrow> bool) \<Rightarrow> nat \<Rightarrow> object list \<Rightarrow> object list" where
  "masked_fill cond a st =
     (case st ! a of
        Points v \<Rightarrow>
          st[a := Points (map (map (\<lambda>p. case p of (x, y, z) \<Rightarrow>
                                      (fill cond x, fill cond y, fill cond z))) v)]
      | _ \<Rightarrow> st)"

definition selected_frames :: "vec3 list list \<Rightarrow> (nat \<times> vec3) list" where
  "selected_frames frames =
     concat (map (\<lambda>(e, pts). map (Pair e) (filter valid_indices pts)) (enumerate 0 frames))"

definition height_map_lidar_call ::
    "nat \<Rightarrow> real \<Rightarrow> ambient \<Rightarrow> (error + fl list list) \<times> ambient" where
  "height_map_lidar_call sensor offset s =
     (case store s ! sensor of
        Buffers envs \<Rightarrow>
          (let (hit_vec, st) =
                 alloc (Points (map (\<lambda>env. map (\<lambda>h. vsub h (pos_w env)) (ray_hits_w env)) envs))
                   (store s);
               st = masked_fill isinf hit_vec st;
               st = masked_fill isnan hit_vec st;
               frames = (case st ! hit_vec of
                           Points v \<Rightarrow>
                             map (\<lambda>(env, hv). map (quat_rotate_inverse (sensor_quat_w env)) hv)
                               (zip envs v)
                         | _ \<Rightarrow> []);
               ivs = map (\<lambda>ep. (linear_index ep, snd (snd (snd ep)))) (selected_frames frames);
               (map_2_5D, st) =
                 alloc (Flat (replicate (length envs * length x_bins * length y_bins) PInf)) st
           in case st ! map_2_5D of
                Flat m0 \<Rightarrow>
                  (case scatter_reduce_amin m0 ivs of
                     Inl err \<Rightarrow> (Inl err, s\<lparr>store := st\<rparr>)
                   | Inr m \<Rightarrow>
                       (Inr (map (\<lambda>g. concat (max_pool2d g))
                               (map (view2 (length x_bins) (length y_bins))
                                  (view2 (length envs) (length x_bins * length y_bins)
                                     (map (finalize offset) m)))),
                        s\<lparr>store := st[map_2_5D := Flat m]\<rparr>))
              | _ \<Rightarrow> (Inl KeyError, s\<lparr>store := st\<rparr>))
      | _ \<Rightarrow> (Inl KeyError, s))"

section \<open>Properties of process_lidar\<close>

lemma process_lidar_elem_range:
  "\<exists>r. process_lidar_elem offset pz hz = Fin r \<and> - 0.5 \<le> r \<and> r \<le> 0.5"
proof -
  define o1 where "o1 = fl_sub (fl_sub pz hz) (Fin offset)"
  define o2 where "o2 = (if isnan o1 then Fin far_clip else o1)"
  define o3 where "o3 = (if isinf o2 then Fin far_clip else o2)"
  have "\<exists>a. o3 = Fin a"
    unfolding o3_def o2_def by (cases o1) simp_all
  then obtain a where a: "o3 = Fin a" ..
  have "process_lidar_elem offset pz hz =
          fl_sub (fl_div (fl_sub (clip o3 near_clip far_clip) (Fin near_clip))
                         (Fin (far_clip - near_clip))) (Fin 0.5)"
    by (simp add: process_lidar_elem_def Let_def o1_def o2_def o3_def)
  also have "\<dots> = Fin ((min (max a 0) 5 - 0) / 5 - 0.5)"
    by (simp add: a clip_def fl_min_def fl_max_def fl_sub_def near_clip_def far_clip_def
        min_def max_def)
  finally show ?thesis
    by (simp add: min_def max_def)
qed

lemma process_lidar_elem_nonfinite:
  assumes "\<not> isfinite hz"
  shows "process_lidar_elem offset pz hz = Fin 0.5"
proof -
  have "isnan (fl_sub (fl_sub pz hz) (Fin offset)) \<or> isinf (fl_sub (fl_sub pz hz) (Fin offset))"
    using assms by (cases hz; cases pz) (simp_all add: fl_sub_def)
  then show ?thesis
    by (cases "fl_sub (fl_sub pz hz) (Fin offset)")
      (simp_all add: process_lidar_elem_def Let_def clip_def fl_min_def fl_max_def fl_sub_def
        near_clip_def far_clip_def)
qed

text \<open>
  C10. Every value returned by \<^verbatim>\<open>process_lidar\<close> is a finite number in the closed
  interval from -0.5 to 0.5, whatever the sensor position, the ray hits and the offset
  are; the result has one row per environment and one value per ray; and a ray whose
  height reading (the z coordinate of its hit) is \<open>NaN\<close> or infinite yields exactly 0.5
  at its position.
\<close>

theorem process_lidar_bounded:
  "length (process_lidar envs offset) = length envs \<and>
   (\<forall>e < length envs.
      length (process_lidar envs offset ! e) = length (ray_hits_w (envs ! e)) \<and>
      (\<forall>r < length (ray_hits_w (envs ! e)).
         (\<exists>v. process_lidar envs offset ! e ! r = Fin v \<and> - 0.5 \<le> v \<and> v \<le> 0.5) \<and>
         (\<not> isfinite (snd (snd (ray_hits_w (envs ! e) ! r))) \<longrightarrow>
            process_lidar envs offset ! e ! r = Fin 0.5)))"
proof (intro conjI allI impI)
  show "length (process_lidar envs offset) = length envs"
    by (simp add: process_lidar_def)
next
  fix e assume "e < length envs"
  then show "length (process_lidar envs offset ! e) = length (ray_hits_w (envs ! e))"
    by (simp add: process_lidar_def)
next
  fix e r assume er: "e < length envs" "r < length (ray_hits_w (envs ! e))"
  then have elem: "process_lidar envs offset ! e ! r =
      process_lidar_elem offset (snd (snd (pos_w (envs ! e))))
        (snd (snd (ray_hits_w (envs ! e) ! r)))"
    by (simp add: process_lidar_def)
  show "\<exists>v. process_lidar envs offset ! e ! r = Fin v \<and> - 0.5 \<le> v \<and> v \<le> 0.5"
    unfolding elem by (rule process_lidar_elem_range)
  assume "\<not> isfinite (snd (snd (ray_hits_w (envs ! e) ! r)))"
  then show "process_lidar envs offset ! e ! r = Fin 0.5"
    unfolding elem by (rule process_lidar_elem_nonfinite)
qed

theorem process_lidar_bounded_witness:
  "process_lidar
     [\<lparr>pos_w = (Fin 0, Fin 0, Fin 2), ray_hits_w = [(Fin 1, Fin 1, Fin 0.5), (PInf, PInf, PInf)],
       root_quat_w = (Fin 1, Fin 0, Fin 0, Fin 0)\<rparr>] 0.5 = [[Fin (- 0.3), Fin 0.5]]"
  using process_lidar_bounded
    [of "[\<lparr>pos_w = (Fin 0, Fin 0, Fin 2),
            ray_hits_w = [(Fin 1, Fin 1, Fin 0.5), (PInf, PInf, PInf)],
            root_quat_w = (Fin 1, Fin 0, Fin 0, Fin 0)\<rparr>]" "0.5"]
  by (simp add: process_lidar_def process_lidar_elem_def Let_def clip_def fl_min_def
      fl_max_def fl_sub_def near_clip_def far_clip_def)

section \<open>Grid geometry and reduction lemmas\<close>

lemma length_x_bins: "length x_bins = 17"
  by (simp add: x_bins_def arange_def range_x_def voxel_size_xy_def)

lemma length_y_bins: "length y_bins = 27"
  by (simp add: y_bins_def arange_def range_y_def voxel_size_xy_def)

lemma x_bins_nth: "k < 17 \<Longrightarrow> x_bins ! k = - 0.8 + real k * 0.06"
  using length_x_bins
  by (simp add: x_bins_def arange_def range_x_def voxel_size_xy_def del: upt_Suc)

lemma y_bins_nth: "k < 27 \<Longrightarrow> y_bins ! k = - 0.8 + real k * 0.06"
  using length_y_bins
  by (simp add: y_bins_def arange_def range_y_def voxel_size_xy_def del: upt_Suc)

lemma valid_indices_iff:
  "valid_indices p \<longleftrightarrow>
     (\<exists>x y z. p = (Fin x, Fin y, Fin z) \<and>
        - 0.8 < x \<and> x \<le> 0.2 + 1 / 10 ^ 9 \<and>
        - 0.8 < y \<and> y \<le> 0.8 + 1 / 10 ^ 9 \<and>
        0 \<le> z \<and> z \<le> 5)"
proof -
  obtain a b c where p: "p = (a, b, c)" by (cases p)
  show ?thesis
    unfolding p valid_indices_def range_x_def range_y_def range_z_def
    by (cases a; cases b; cases c) simp_all
qed

lemma bucketize_bounds:
  assumes "bins \<noteq> []" and "hd bins < x"
  shows "1 \<le> bucketize (Fin x) bins" and "bucketize (Fin x) bins \<le> int (length bins)"
proof -
  obtain b bs where bins: "bins = b # bs" using assms(1) by (cases bins) auto
  with assms(2) show "1 \<le> bucketize (Fin x) bins"
    by (simp add: bucketize_def)
  show "bucketize (Fin x) bins \<le> int (length bins)"
    by (simp add: bucketize_def length_takeWhile_le)
qed

lemma x_bins_hd: "x_bins \<noteq> [] \<and> hd x_bins = - 0.8"
proof -
  have "x_bins \<noteq> []" using length_x_bins by auto
  moreover have "hd x_bins = x_bins ! 0" using \<open>x_bins \<noteq> []\<close> by (simp add: hd_conv_nth)
  ultimately show ?thesis using x_bins_nth[of 0] by simp
qed

lemma y_bins_hd: "y_bins \<noteq> [] \<and> hd y_bins = - 0.8"
proof -
  have "y_bins \<noteq> []" using length_y_bins by auto
  moreover have "hd y_bins = y_bins ! 0" using \<open>y_bins \<noteq> []\<close> by (simp add: hd_conv_nth)
  ultimately show ?thesis using y_bins_nth[of 0] by simp
qed

lemma valid_index_bounds:
  assumes "valid_indices p"
  shows "0 \<le> x_index p \<and> x_index p < 17 \<and> 0 \<le> y_index p \<and> y_index p < 27"
proof -
  from assms obtain x y z where p: "p = (Fin x, Fin y, Fin z)" and x: "- 0.8 < x" and y: "- 0.8 < y"
    unfolding valid_indices_iff by blast
  have "1 \<le> bucketize (Fin x) x_bins" "bucketize (Fin x) x_bins \<le> 17"
    using bucketize_bounds[of x_bins x] x_bins_hd x length_x_bins by simp_all
  moreover have "1 \<le> bucketize (Fin y) y_bins" "bucketize (Fin y) y_bins \<le> 27"
    using bucketize_bounds[of y_bins y] y_bins_hd y length_y_bins by simp_all
  ultimately show ?thesis by (simp add: p x_index_def y_index_def)
qed

lemma valid_z_finite:
  "valid_indices p \<Longrightarrow> isfinite (snd (snd p))"
  unfolding valid_indices_iff by auto

lemma fl_min_commute: "fl_min a b = fl_min b a"
  by (cases a; cases b) (auto simp: fl_min_def)



lemma scatter_reduce_amin_nth:
  assumes "\<forall>iv \<in> set ivs. 0 \<le> fst iv \<and> fst iv < int (length m)"
  shows "\<exists>m'. scatter_reduce_amin m ivs = Inr m' \<and> length m' = length m \<and>
           (\<forall>k < length m. m' ! k = fold fl_min (map snd (filter (\<lambda>iv. fst iv = int k) ivs)) (m ! k))"
  using assms
proof (induction ivs arbitrary: m)
  case Nil
  then show ?case by simp
next
  case (Cons iv ivs)
  obtain i v where iv: "iv = (i, v)" by (cases iv)
  from Cons.prems have i: "0 \<le> i" "i < int (length m)" by (auto simp: iv)
  let ?m = "m[nat i := fl_min (m ! nat i) v]"
  have "\<forall>iv \<in> set ivs. 0 \<le> fst iv \<and> fst iv < int (length ?m)"
    using Cons.prems by simp
  from Cons.IH[OF this] obtain m' where m': "scatter_reduce_amin ?m ivs = Inr m'"
    "length m' = length m"
    "\<forall>k < length m. m' ! k = fold fl_min (map snd (filter (\<lambda>iv. fst iv = int k) ivs)) (?m ! k)"
    by auto
  have "m' ! k = fold fl_min (map snd (filter (\<lambda>iv. fst iv = int k) (iv # ivs))) (m ! k)"
    if k: "k < length m" for k
  proof (cases "i = int k")
    case True
    then have "nat i = k" by simp
    then show ?thesis using m'(3) k True by (simp add: iv fl_min_commute[of v])
  next
    case False
    then have "nat i \<noteq> k" using i by auto
    then show ?thesis using m'(3) k False by (simp add: iv)
  qed
  then show ?case using m'(1,2) i by (simp add: iv)
qed

lemma fl_le_trans: "fl_le u v \<Longrightarrow> fl_le v w \<Longrightarrow> fl_le u w"
  by (cases u; cases v; cases w) simp_all

lemma fl_le_refl: "\<not> isnan a \<Longrightarrow> fl_le a a"
  by (cases a) simp_all

lemma fl_min_cases: "fl_min a b = a \<or> fl_min a b = b"
  by (cases a; cases b) (simp_all add: fl_min_def)

lemma fl_min_le:
  "\<not> isnan a \<Longrightarrow> \<not> isnan b \<Longrightarrow> fl_le (fl_min a b) a \<and> fl_le (fl_min a b) b"
  by (cases a; cases b) (simp_all add: fl_min_def)

lemma fold_fl_min_gen:
  assumes "\<not> isnan a" and "\<forall>z \<in> set zs. \<not> isnan z"
  shows "(fold fl_min zs a = a \<or> fold fl_min zs a \<in> set zs) \<and>
         fl_le (fold fl_min zs a) a \<and>
         (\<forall>z \<in> set zs. fl_le (fold fl_min zs a) z)"
  using assms
proof (induction zs arbitrary: a)
  case Nil
  then show ?case by (simp add: fl_le_refl)
next
  case (Cons z zs)
  let ?a = "fl_min z a"
  have z: "\<not> isnan z" using Cons.prems(2) by simp
  have a': "\<not> isnan ?a" using fl_min_cases[of z a] z Cons.prems(1) by auto
  have le: "fl_le ?a z" "fl_le ?a a" using fl_min_le[OF z Cons.prems(1)] by simp_all
  have rest: "\<forall>z \<in> set zs. \<not> isnan z" using Cons.prems(2) by simp
  note ih = Cons.IH[OF a' rest]
  have f: "fold fl_min (z # zs) a = fold fl_min zs ?a" by simp
  have 1: "fold fl_min zs ?a = a \<or> fold fl_min zs ?a \<in> set (z # zs)"
    using ih fl_min_cases[of z a] by auto
  have 2: "fl_le (fold fl_min zs ?a) a"
    using ih le(2) fl_le_trans by blast
  have 3: "fl_le (fold fl_min zs ?a) z"
    using ih le(1) fl_le_trans by blast
  have 4: "\<forall>y \<in> set zs. fl_le (fold fl_min zs ?a) y"
    using ih by blast
  show ?case unfolding f using 1 2 3 4 by simp
qed

lemma fold_fl_min_PInf:
  assumes "\<forall>z \<in> set zs. isfinite z"
  shows "(zs = [] \<longrightarrow> fold fl_min zs PInf = PInf) \<and>
         (zs \<noteq> [] \<longrightarrow> fold fl_min zs PInf \<in> set zs) \<and>
         (\<forall>z \<in> set zs. fl_le (fold fl_min zs PInf) z)"
proof -
  have nn: "\<forall>z \<in> set zs. \<not> isnan z"
  proof
    fix z assume "z \<in> set zs"
    then have "isfinite z" using assms by blast
    then show "\<not> isnan z" by (cases z) simp_all
  qed
  have g: "(fold fl_min zs PInf = PInf \<or> fold fl_min zs PInf \<in> set zs) \<and>
         fl_le (fold fl_min zs PInf) PInf \<and>
         (\<forall>z \<in> set zs. fl_le (fold fl_min zs PInf) z)"
    by (rule fold_fl_min_gen[OF _ nn]) simp
  have "fold fl_min zs PInf \<in> set zs" if ne: "zs \<noteq> []"
  proof (rule ccontr)
    assume "fold fl_min zs PInf \<notin> set zs"
    with g have eq: "fold fl_min zs PInf = PInf" by blast
    from ne obtain z where zin: "z \<in> set zs" by (cases zs) auto
    with g eq have "fl_le PInf z" by auto
    moreover have "isfinite z" using assms zin by blast
    ultimately show False by (cases z) simp_all
  qed
  then show ?thesis using g by simp
qed

lemma selected_mem:
  assumes "ep \<in> set (selected envs)"
  shows "fst ep < length envs \<and> valid_indices (snd ep) \<and>
         snd ep \<in> set (hit_vec_lidar_frame (envs ! fst ep))"
proof -
  from assms obtain en where en: "en \<in> set (enumerate 0 envs)"
    and ep: "ep \<in> set (map (Pair (fst en)) (filter valid_indices (hit_vec_lidar_frame (snd en))))"
    unfolding selected_def by (auto simp: case_prod_beta)
  from en have "fst en < length envs" "envs ! fst en = snd en"
    by (simp_all add: in_set_enumerate_eq)
  with ep show ?thesis by auto
qed

lemma filter_enumerate_concat:
  "filter (\<lambda>ep. fst ep = e \<and> Q (snd ep))
     (concat (map (\<lambda>(e', env). map (Pair e') (G env)) (enumerate n envs))) =
   (if n \<le> e \<and> e < n + length envs then map (Pair e) (filter Q (G (envs ! (e - n)))) else [])"
proof (induction envs arbitrary: n)
  case Nil
  then show ?case by auto
next
  case (Cons env envs)
  have hd: "filter (\<lambda>ep. fst ep = e \<and> Q (snd ep)) (map (Pair n) (G env)) =
      (if n = e then map (Pair e) (filter Q (G env)) else [])"
    by (simp add: filter_map o_def)
  show ?case
  proof (cases "n = e")
    case True
    then show ?thesis using hd Cons.IH[of "Suc n"] by simp
  next
    case False
    then show ?thesis using hd Cons.IH[of "Suc n"] by (auto simp: Suc_diff_le)
  qed
qed

lemma linear_index_eq:
  assumes "valid_indices p" "xi < 17" "yi < 27"
  shows "linear_index (e', p) = int (flat_index e xi yi) \<longleftrightarrow>
         e' = e \<and> x_index p = int xi \<and> y_index p = int yi"
proof -
  from valid_index_bounds[OF assms(1)]
  have b: "0 \<le> x_index p" "x_index p < 17" "0 \<le> y_index p" "y_index p < 27" by simp_all
  define a where "a = x_index p"
  define c where "c = y_index p"
  have "int e' = int e \<and> a = int xi \<and> c = int yi"
    if eq: "int e' * 459 + a * 27 + c = int e * 459 + int xi * 27 + int yi"
  proof -
    have ab: "0 \<le> a" "a < 17" "0 \<le> c" "c < 27" using b by (simp_all add: a_def c_def)
    have e: "int e' = int e"
    proof (rule ccontr)
      assume "int e' \<noteq> int e"
      then consider "int e' + 1 \<le> int e" | "int e + 1 \<le> int e'" by linarith
      then show False using eq ab assms(2,3) by cases linarith+
    qed
    have a: "a = int xi"
    proof (rule ccontr)
      assume "a \<noteq> int xi"
      then consider "a + 1 \<le> int xi" | "int xi + 1 \<le> a" by linarith
      then show False using eq e ab assms(2,3) by cases linarith+
    qed
    show ?thesis using eq e a by simp
  qed
  then have "int e' * 459 + a * 27 + c = int e * 459 + int xi * 27 + int yi \<longleftrightarrow>
        int e' = int e \<and> a = int xi \<and> c = int yi"
    by auto
  moreover have "linear_index (e', p) = int e' * 459 + a * 27 + c"
    by (simp add: linear_index_def length_x_bins length_y_bins a_def c_def)
  moreover have "int (flat_index e xi yi) = int e * 459 + int xi * 27 + int yi"
    by (simp add: flat_index_def length_x_bins length_y_bins)
  ultimately show ?thesis
    by (simp only: a_def c_def of_nat_eq_iff)
qed

lemma selected_cell:
  assumes "e < length envs" "xi < 17" "yi < 27"
  shows "filter (\<lambda>ep. linear_index ep = int (flat_index e xi yi)) (selected envs) =
         map (Pair e) (cell_points (envs ! e) xi yi)"
proof -
  have "filter (\<lambda>ep. linear_index ep = int (flat_index e xi yi)) (selected envs) =
        filter (\<lambda>ep. fst ep = e \<and> (x_index (snd ep) = int xi \<and> y_index (snd ep) = int yi))
          (selected envs)"
  proof (rule filter_cong[OF refl])
    fix ep assume "ep \<in> set (selected envs)"
    then have "valid_indices (snd ep)" using selected_mem by blast
    from linear_index_eq[OF this assms(2,3), of "fst ep" e]
    show "(linear_index ep = int (flat_index e xi yi)) =
          (fst ep = e \<and> (x_index (snd ep) = int xi \<and> y_index (snd ep) = int yi))"
      by simp
  qed
  also have "\<dots> = map (Pair e)
      (filter (\<lambda>p. x_index p = int xi \<and> y_index p = int yi)
         (filter valid_indices (hit_vec_lidar_frame (envs ! e))))"
    unfolding selected_def
    using filter_enumerate_concat[of e "\<lambda>p. x_index p = int xi \<and> y_index p = int yi"
        "\<lambda>env. filter valid_indices (hit_vec_lidar_frame env)" 0 envs] assms(1)
    by simp
  also have "\<dots> = map (Pair e) (cell_points (envs ! e) xi yi)"
    by (simp add: cell_points_def)
  finally show ?thesis .
qed

lemma selected_index_range:
  assumes "ep \<in> set (selected envs)"
  shows "0 \<le> linear_index ep \<and>
         linear_index ep < int (length envs * length x_bins * length y_bins)"
proof -
  from selected_mem[OF assms] have e: "fst ep < length envs" and v: "valid_indices (snd ep)"
    by simp_all
  from valid_index_bounds[OF v]
  have b: "0 \<le> x_index (snd ep)" "x_index (snd ep) < 17"
    "0 \<le> y_index (snd ep)" "y_index (snd ep) < 27" by simp_all
  have "int (fst ep) + 1 \<le> int (length envs)" using e by simp
  then have "(int (fst ep) + 1) * 459 \<le> int (length envs) * 459" by simp
  with b show ?thesis
    by (simp add: linear_index_def length_x_bins length_y_bins)
qed

lemma map_raw_cell:
  "\<exists>m. map_raw envs = Inr m \<and> length m = length envs * 17 * 27 \<and>
     (\<forall>e < length envs. \<forall>xi < 17. \<forall>yi < 27.
        m ! flat_index e xi yi =
          fold fl_min (map (\<lambda>p. snd (snd p)) (cell_points (envs ! e) xi yi)) PInf)"
proof -
  let ?ivs = "map (\<lambda>ep. (linear_index ep, snd (snd (snd ep)))) (selected envs)"
  let ?m0 = "replicate (length envs * length x_bins * length y_bins) PInf"
  have rng: "\<forall>iv \<in> set ?ivs. 0 \<le> fst iv \<and> fst iv < int (length ?m0)"
    using selected_index_range by auto
  from scatter_reduce_amin_nth[OF rng] obtain m where
    m: "scatter_reduce_amin ?m0 ?ivs = Inr m" "length m = length ?m0"
    and nth: "\<forall>k < length ?m0. m ! k =
        fold fl_min (map snd (filter (\<lambda>iv. fst iv = int k) ?ivs)) (?m0 ! k)"
    by blast
  have len: "length m = length envs * 17 * 27"
    using m(2) by (simp add: length_x_bins length_y_bins)
  have cell: "m ! flat_index e xi yi =
      fold fl_min (map (\<lambda>p. snd (snd p)) (cell_points (envs ! e) xi yi)) PInf"
    if e: "e < length envs" and xi: "xi < 17" and yi: "yi < 27" for e xi yi
  proof -
    have "Suc e * 459 \<le> length envs * 459" using e by (simp only: Suc_leI mult_le_mono1)
    then have k: "flat_index e xi yi < length ?m0"
      using xi yi by (simp add: flat_index_def length_x_bins length_y_bins)
    have flt: "map snd (filter (\<lambda>iv. fst iv = int (flat_index e xi yi)) ?ivs) =
        map (\<lambda>p. snd (snd p)) (cell_points (envs ! e) xi yi)"
      using selected_cell[OF e xi yi] by (simp add: filter_map o_def)
    show ?thesis using nth k flt by simp
  qed
  show ?thesis using m(1) len cell by (simp add: map_raw_def)
qed

lemma view2_nth:
  assumes "i < n" "j < m" "length xs = n * m"
  shows "length (view2 n m xs) = n" "length (view2 n m xs ! i) = m"
    "view2 n m xs ! i ! j = xs ! (i * m + j)"
proof -
  have "Suc i * m \<le> n * m" using assms(1) by (simp only: Suc_leI mult_le_mono1)
  then have b: "i * m + m \<le> length xs" using assms(3) by simp
  show "length (view2 n m xs) = n" by (simp add: view2_def)
  show "length (view2 n m xs ! i) = m" using assms(1) b by (simp add: view2_def)
  show "view2 n m xs ! i ! j = xs ! (i * m + j)"
    using assms(1,2) b by (simp add: view2_def)
qed

lemma fl_max_cases: "fl_max a b = a \<or> fl_max a b = b"
  by (cases a; cases b) (simp_all add: fl_max_def)

lemma fl_max_ge:
  "\<not> isnan a \<Longrightarrow> \<not> isnan b \<Longrightarrow> fl_le a (fl_max a b) \<and> fl_le b (fl_max a b)"
  by (cases a; cases b) (simp_all add: fl_max_def)

lemma fold_fl_max_gen:
  assumes "\<not> isnan a" and "\<forall>z \<in> set zs. \<not> isnan z"
  shows "(fold fl_max zs a = a \<or> fold fl_max zs a \<in> set zs) \<and>
         fl_le a (fold fl_max zs a) \<and>
         (\<forall>z \<in> set zs. fl_le z (fold fl_max zs a))"
  using assms
proof (induction zs arbitrary: a)
  case Nil
  then show ?case by (simp add: fl_le_refl)
next
  case (Cons z zs)
  let ?a = "fl_max z a"
  have z: "\<not> isnan z" using Cons.prems(2) by simp
  have a': "\<not> isnan ?a" using fl_max_cases[of z a] z Cons.prems(1) by auto
  have le: "fl_le z ?a" "fl_le a ?a" using fl_max_ge[OF z Cons.prems(1)] by simp_all
  have rest: "\<forall>z \<in> set zs. \<not> isnan z" using Cons.prems(2) by simp
  note ih = Cons.IH[OF a' rest]
  have f: "fold fl_max (z # zs) a = fold fl_max zs ?a" by simp
  have 1: "fold fl_max zs ?a = a \<or> fold fl_max zs ?a \<in> set (z # zs)"
    using ih fl_max_cases[of z a] by auto
  have 2: "fl_le a (fold fl_max zs ?a)"
    using ih le(2) fl_le_trans by blast
  have 3: "fl_le z (fold fl_max zs ?a)"
    using ih le(1) fl_le_trans by blast
  have 4: "\<forall>y \<in> set zs. fl_le y (fold fl_max zs ?a)"
    using ih by blast
  show ?case unfolding f using 1 2 3 4 by simp
qed

lemma fold_fl_max_NInf:
  assumes "\<forall>z \<in> set zs. isfinite z" and "zs \<noteq> []"
  shows "fold fl_max zs NInf \<in> set zs \<and> (\<forall>z \<in> set zs. fl_le z (fold fl_max zs NInf))"
proof -
  have nn: "\<forall>z \<in> set zs. \<not> isnan z"
  proof
    fix z assume "z \<in> set zs"
    then have "isfinite z" using assms by blast
    then show "\<not> isnan z" by (cases z) simp_all
  qed
  have g: "(fold fl_max zs NInf = NInf \<or> fold fl_max zs NInf \<in> set zs) \<and>
         fl_le NInf (fold fl_max zs NInf) \<and>
         (\<forall>z \<in> set zs. fl_le z (fold fl_max zs NInf))"
    by (rule fold_fl_max_gen[OF _ nn]) simp
  have "fold fl_max zs NInf \<in> set zs"
  proof (rule ccontr)
    assume "fold fl_max zs NInf \<notin> set zs"
    with g have eq: "fold fl_max zs NInf = NInf" by blast
    from assms(2) obtain z where zin: "z \<in> set zs" by (cases zs) auto
    with g eq have "fl_le z NInf" by auto
    moreover have "isfinite z" using assms zin by blast
    ultimately show False by (cases z) simp_all
  qed
  then show ?thesis using g by simp
qed

text \<open>The cells of the pooling window of \<open>(i, j)\<close> in a grid of \<open>W\<close> columns.\<close>

lemma pool_window_set:
  assumes "\<forall>i < length g. length (g ! i) = W"
  shows "set (pool_window g i j) =
     {g ! i' ! j' | i' j'. i - 1 \<le> i' \<and> i' \<le> i + 1 \<and> i' < length g \<and>
                          j - 1 \<le> j' \<and> j' \<le> j + 1 \<and> j' < W}"
proof -
  have "set (pool_window g i j) =
      (\<Union>i' \<in> {i - 1..<min (i + 2) (length g)}.
         (\<lambda>j'. g ! i' ! j') ` {j - 1..<min (j + 2) (length (g ! i'))})"
    by (simp add: pool_window_def)
  also have "\<dots> = (\<Union>i' \<in> {i - 1..<min (i + 2) (length g)}.
         (\<lambda>j'. g ! i' ! j') ` {j - 1..<min (j + 2) W})"
    using assms by auto
  also have "\<dots> = {g ! i' ! j' | i' j'. i - 1 \<le> i' \<and> i' \<le> i + 1 \<and> i' < length g \<and>
                          j - 1 \<le> j' \<and> j' \<le> j + 1 \<and> j' < W}" (is "?L = ?R")
  proof
    show "?L \<subseteq> ?R"
    proof
      fix x assume "x \<in> ?L"
      then obtain i' j' where i': "i' \<in> {i - 1..<min (i + 2) (length g)}"
        and j': "j' \<in> {j - 1..<min (j + 2) W}" and x: "x = g ! i' ! j'"
        by auto
      have "i - 1 \<le> i' \<and> i' \<le> i + 1 \<and> i' < length g \<and>
            j - 1 \<le> j' \<and> j' \<le> j + 1 \<and> j' < W"
        using i' j' by auto
      then show "x \<in> ?R" using x by blast
    qed
    show "?R \<subseteq> ?L"
    proof
      fix x assume "x \<in> ?R"
      then obtain i' j' where x: "x = g ! i' ! j'"
        and b: "i - 1 \<le> i'" "i' \<le> i + 1" "i' < length g" "j - 1 \<le> j'" "j' \<le> j + 1" "j' < W"
        by blast
      have "i' \<in> {i - 1..<min (i + 2) (length g)}" using b by auto
      moreover have "j' \<in> {j - 1..<min (j + 2) W}" using b by auto
      ultimately show "x \<in> ?L" using x by blast
    qed
  qed
  finally show ?thesis .
qed


lemma max_pool2d_cell:
  assumes rows: "\<forall>i < length g. length (g ! i) = W"
    and fin: "\<forall>i < length g. \<forall>j < W. isfinite (g ! i ! j)"
    and i: "i < length g" and j: "j < W"
  shows "length (max_pool2d g) = length g" "length (max_pool2d g ! i) = W"
    "\<exists>i' j'. i - 1 \<le> i' \<and> i' \<le> i + 1 \<and> i' < length g \<and>
             j - 1 \<le> j' \<and> j' \<le> j + 1 \<and> j' < W \<and> max_pool2d g ! i ! j = g ! i' ! j'"
    "\<forall>i' j'. i - 1 \<le> i' \<and> i' \<le> i + 1 \<and> i' < length g \<and>
             j - 1 \<le> j' \<and> j' \<le> j + 1 \<and> j' < W \<longrightarrow>
             fl_le (g ! i' ! j') (max_pool2d g ! i ! j)"
proof -
  let ?w = "pool_window g i j"
  have cell: "max_pool2d g ! i ! j = fold fl_max ?w NInf"
    using i j rows by (simp add: max_pool2d_def)
  note ws = pool_window_set[OF rows, of i j]
  have "\<exists>i' j'. g ! i ! j = g ! i' ! j' \<and> i - 1 \<le> i' \<and> i' \<le> i + 1 \<and> i' < length g \<and>
      j - 1 \<le> j' \<and> j' \<le> j + 1 \<and> j' < W"
    using i j by (intro exI[of _ i] exI[of _ j]) simp
  then have self: "g ! i ! j \<in> set ?w" unfolding ws by simp
  then have ne: "?w \<noteq> []" by auto
  have allfin: "\<forall>z \<in> set ?w. isfinite z" unfolding ws using fin by auto
  from fold_fl_max_NInf[OF allfin ne]
  have mem: "fold fl_max ?w NInf \<in> set ?w" and ub: "\<forall>z \<in> set ?w. fl_le z (fold fl_max ?w NInf)"
    by simp_all
  show "length (max_pool2d g) = length g" by (simp add: max_pool2d_def)
  show "length (max_pool2d g ! i) = W" using i rows by (simp add: max_pool2d_def)
  show "\<exists>i' j'. i - 1 \<le> i' \<and> i' \<le> i + 1 \<and> i' < length g \<and>
             j - 1 \<le> j' \<and> j' \<le> j + 1 \<and> j' < W \<and> max_pool2d g ! i ! j = g ! i' ! j'"
    using mem unfolding cell ws by blast
  show "\<forall>i' j'. i - 1 \<le> i' \<and> i' \<le> i + 1 \<and> i' < length g \<and>
             j - 1 \<le> j' \<and> j' \<le> j + 1 \<and> j' < W \<longrightarrow>
             fl_le (g ! i' ! j') (max_pool2d g ! i ! j)"
    using ub unfolding cell ws by blast
qed

lemma concat_nth_rect:
  assumes "\<forall>i < length xss. length (xss ! i) = W" "i < length xss" "j < W"
  shows "length (concat xss) = length xss * W \<and> concat xss ! (i * W + j) = xss ! i ! j"
  using assms
proof (induction xss arbitrary: i)
  case Nil
  then show ?case by simp
next
  case (Cons xs xss)
  have hd: "length xs = W" using Cons.prems(1) by auto
  have tl: "\<forall>i < length xss. length (xss ! i) = W" using Cons.prems(1) by auto
  have "\<forall>xs \<in> set xss. length xs = W"
    using tl by (simp add: all_set_conv_all_nth)
  then have len: "length (concat xss) = length xss * W"
    by (induction xss) simp_all
  show ?case
  proof (cases i)
    case 0
    then show ?thesis using hd len Cons.prems(3) by (simp add: nth_append)
  next
    case (Suc k)
    then have "k < length xss" using Cons.prems(2) by simp
    from Cons.IH[OF tl this Cons.prems(3)] show ?thesis
      using hd len Suc by (simp add: nth_append)
  qed
qed

lemma finalize_PInf: "finalize offset PInf = Fin 0"
  by (simp add: finalize_def fl_sub_def)

lemma finalize_Fin:
  "finalize offset (Fin z) = (if z - offset < 0.05 then Fin 0 else Fin (z - offset))"
  by (simp add: finalize_def fl_sub_def)

lemma cell_points_finite: "\<forall>z \<in> set (map (\<lambda>p. snd (snd p)) (cell_points env xi yi)). isfinite z"
  by (auto simp: cell_points_def valid_z_finite)

lemma cell_amin_cases: "cell_amin env xi yi = PInf \<or> (\<exists>z. cell_amin env xi yi = Fin z)"
proof (cases "cell_points env xi yi = []")
  case True
  then show ?thesis by (simp add: cell_amin_def)
next
  case False
  then have "cell_amin env xi yi \<in> set (map (\<lambda>p. snd (snd p)) (cell_points env xi yi))"
    using fold_fl_min_PInf[OF cell_points_finite[of env xi yi]] by (simp add: cell_amin_def)
  then have "isfinite (cell_amin env xi yi)" using cell_points_finite by blast
  then show ?thesis by (cases "cell_amin env xi yi") simp_all
qed

lemma finalize_cell:
  "\<exists>r. finalize offset (cell_amin env xi yi) = Fin r \<and> (r = 0 \<or> 0.05 \<le> r)"
  using cell_amin_cases[of env xi yi]
  by (auto simp: finalize_PInf finalize_Fin)

lemma map_2_5D_cell:
  "\<exists>g. map_2_5D envs offset = Inr g \<and> length g = length envs \<and>
     (\<forall>e < length envs. length (g ! e) = 17 \<and>
        (\<forall>xi < 17. length (g ! e ! xi) = 27 \<and>
           (\<forall>yi < 27. g ! e ! xi ! yi = finalize offset (cell_amin (envs ! e) xi yi))))"
proof -
  from map_raw_cell[of envs] obtain m where m: "map_raw envs = Inr m"
    and len: "length m = length envs * 17 * 27"
    and cell: "\<forall>e < length envs. \<forall>xi < 17. \<forall>yi < 27.
        m ! flat_index e xi yi = cell_amin (envs ! e) xi yi"
    unfolding cell_amin_def by blast
  let ?f = "map (finalize offset) m"
  let ?v = "view2 (length envs) (17 * 27) ?f"
  let ?g = "map (view2 17 27) ?v"
  have g: "map_2_5D envs offset = Inr ?g"
    by (simp add: map_2_5D_def m length_x_bins length_y_bins)
  have lf: "length ?f = length envs * (17 * 27)" using len by simp
  have lg: "length ?g = length envs" by (simp add: view2_def)
  have "length (?g ! e) = 17 \<and>
        (\<forall>xi < 17. length (?g ! e ! xi) = 27 \<and>
           (\<forall>yi < 27. ?g ! e ! xi ! yi = finalize offset (cell_amin (envs ! e) xi yi)))"
    if e: "e < length envs" for e
  proof -
    have ge: "?g ! e = view2 17 27 (?v ! e)" using e by (simp add: view2_def)
    have lve: "length (?v ! e) = 17 * 27"
      using view2_nth(2)[OF e _ lf, of 0] by simp
    have "length (?g ! e ! xi) = 27 \<and>
        (\<forall>yi < 27. ?g ! e ! xi ! yi = finalize offset (cell_amin (envs ! e) xi yi))"
      if xi: "xi < 17" for xi
    proof -
      have "?g ! e ! xi ! yi = finalize offset (cell_amin (envs ! e) xi yi)"
        if yi: "yi < 27" for yi
      proof -
        have k: "xi * 27 + yi < 17 * 27" using xi yi by simp
        have "Suc e * 459 \<le> length envs * 459" using e by (simp only: Suc_leI mult_le_mono1)
        then have kk: "e * (17 * 27) + (xi * 27 + yi) < length m" using k len by simp
        have "?g ! e ! xi ! yi = ?v ! e ! (xi * 27 + yi)"
          unfolding ge using view2_nth(3)[OF xi yi lve] .
        also have "\<dots> = ?f ! (e * (17 * 27) + (xi * 27 + yi))"
          using view2_nth(3)[OF e k lf] .
        also have "\<dots> = finalize offset (m ! (e * (17 * 27) + (xi * 27 + yi)))"
          using kk by simp
        also have "e * (17 * 27) + (xi * 27 + yi) = flat_index e xi yi"
          by (simp add: flat_index_def length_x_bins length_y_bins)
        finally show ?thesis using cell e xi yi by simp
      qed
      moreover have "length (?g ! e ! xi) = 27"
        unfolding ge using view2_nth(2)[OF xi _ lve, of 0] by simp
      ultimately show ?thesis by simp
    qed
    moreover have "length (?g ! e) = 17"
      unfolding ge using view2_nth(1)[OF _ _ lve, of 0 0] by simp
    ultimately show ?thesis by simp
  qed
  then show ?thesis using g lg by blast
qed

lemma height_map_lidar_out:
  "\<exists>g out. map_2_5D envs offset = Inr g \<and> height_map_lidar envs offset = Inr out \<and>
     length g = length envs \<and> length out = length envs \<and>
     (\<forall>e < length envs.
        length (g ! e) = 17 \<and> (\<forall>i < 17. length (g ! e ! i) = 27) \<and>
        (\<forall>i < 17. \<forall>j < 27. g ! e ! i ! j = finalize offset (cell_amin (envs ! e) i j)) \<and>
        length (out ! e) = 17 * 27 \<and>
        (\<forall>i < 17. \<forall>j < 27. out ! e ! (i * 27 + j) = max_pool2d (g ! e) ! i ! j))"
proof -
  from map_2_5D_cell[of envs offset] obtain g where g: "map_2_5D envs offset = Inr g"
    and lg: "length g = length envs"
    and cells: "\<forall>e < length envs. length (g ! e) = 17 \<and>
        (\<forall>xi < 17. length (g ! e ! xi) = 27 \<and>
           (\<forall>yi < 27. g ! e ! xi ! yi = finalize offset (cell_amin (envs ! e) xi yi)))"
    by blast
  let ?out = "map (\<lambda>g. concat (max_pool2d g)) g"
  have out: "height_map_lidar envs offset = Inr ?out"
    by (simp add: height_map_lidar_def g)
  have "length (?out ! e) = 17 * 27 \<and>
        (\<forall>i < 17. \<forall>j < 27. ?out ! e ! (i * 27 + j) = max_pool2d (g ! e) ! i ! j)"
    if e: "e < length envs" for e
  proof -
    have rows: "\<forall>i < length (g ! e). length (g ! e ! i) = 27" using cells e by simp
    have fin: "\<forall>i < length (g ! e). \<forall>j < 27. isfinite (g ! e ! i ! j)"
    proof (intro allI impI)
      fix i j assume "i < length (g ! e)" "j < (27::nat)"
      then have "g ! e ! i ! j = finalize offset (cell_amin (envs ! e) i j)"
        using cells e by simp
      then show "isfinite (g ! e ! i ! j)"
        using finalize_cell[of offset "envs ! e" i j] by auto
    qed
    have lp: "length (max_pool2d (g ! e)) = 17"
      using cells e by (simp add: max_pool2d_def)
    have prow: "\<forall>i < length (max_pool2d (g ! e)). length (max_pool2d (g ! e) ! i) = 27"
      using rows by (simp add: max_pool2d_def)
    have oe: "?out ! e = concat (max_pool2d (g ! e))" using e lg by simp
    have "length (?out ! e) = 17 * 27"
      unfolding oe using concat_nth_rect[OF prow, of 0 0] lp by simp
    moreover have "?out ! e ! (i * 27 + j) = max_pool2d (g ! e) ! i ! j"
      if "i < 17" "j < 27" for i j
      unfolding oe using concat_nth_rect[OF prow, of i j] lp that by simp
    ultimately show ?thesis by simp
  qed
  then show ?thesis using g out lg cells by (intro exI[of _ g] exI[of _ ?out]) simp
qed

lemma grid_finite:
  "isfinite (finalize offset (cell_amin env i j))"
  using finalize_cell[of offset env i j] by auto

lemma pooled_cell:
  assumes g: "length g = 17" "\<forall>i < 17. length (g ! i) = 27"
    "\<forall>i < 17. \<forall>j < 27. g ! i ! j = finalize offset (cell_amin env i j)"
    and i: "i < 17" and j: "j < 27"
  shows "\<exists>i' j'. i - 1 \<le> i' \<and> i' \<le> i + 1 \<and> i' < 17 \<and>
             j - 1 \<le> j' \<and> j' \<le> j + 1 \<and> j' < 27 \<and> max_pool2d g ! i ! j = g ! i' ! j'"
    "\<forall>i' j'. i - 1 \<le> i' \<and> i' \<le> i + 1 \<and> i' < 17 \<and>
             j - 1 \<le> j' \<and> j' \<le> j + 1 \<and> j' < 27 \<longrightarrow>
             fl_le (g ! i' ! j') (max_pool2d g ! i ! j)"
proof -
  have rows: "\<forall>i < length g. length (g ! i) = 27" using g by simp
  have fin: "\<forall>i < length g. \<forall>j < 27. isfinite (g ! i ! j)"
    using g grid_finite by simp
  have i': "i < length g" using i g by simp
  show "\<exists>i' j'. i - 1 \<le> i' \<and> i' \<le> i + 1 \<and> i' < 17 \<and>
             j - 1 \<le> j' \<and> j' \<le> j + 1 \<and> j' < 27 \<and> max_pool2d g ! i ! j = g ! i' ! j'"
    using max_pool2d_cell(3)[OF rows fin i' j] g(1) by simp
  show "\<forall>i' j'. i - 1 \<le> i' \<and> i' \<le> i + 1 \<and> i' < 17 \<and>
             j - 1 \<le> j' \<and> j' \<le> j + 1 \<and> j' < 27 \<longrightarrow>
             fl_le (g ! i' ! j') (max_pool2d g ! i ! j)"
    using max_pool2d_cell(4)[OF rows fin i' j] g(1) by simp
qed

lemma height_map_lidar_values:
  "\<exists>out. height_map_lidar envs offset = Inr out \<and> length out = length envs \<and>
     (\<forall>e < length envs. length (out ! e) = 17 * 27 \<and>
        (\<forall>k < 17 * 27. \<exists>r. out ! e ! k = Fin r \<and> (r = 0 \<or> 0.05 \<le> r)))"
proof -
  from height_map_lidar_out[of envs offset] obtain g out where
    out: "height_map_lidar envs offset = Inr out" "length out = length envs"
    and props: "\<forall>e < length envs.
        length (g ! e) = 17 \<and> (\<forall>i < 17. length (g ! e ! i) = 27) \<and>
        (\<forall>i < 17. \<forall>j < 27. g ! e ! i ! j = finalize offset (cell_amin (envs ! e) i j)) \<and>
        length (out ! e) = 17 * 27 \<and>
        (\<forall>i < 17. \<forall>j < 27. out ! e ! (i * 27 + j) = max_pool2d (g ! e) ! i ! j)"
    by blast
  have "\<exists>r. out ! e ! k = Fin r \<and> (r = 0 \<or> 0.05 \<le> r)"
    if e: "e < length envs" and k: "k < 17 * 27" for e k
  proof -
    define i where "i = k div 27"
    define j where "j = k mod 27"
    have ij: "i < 17" "j < 27" "k = i * 27 + j"
      using k by (simp_all add: i_def j_def less_mult_imp_div_less)
    have pe: "length (g ! e) = 17" "\<forall>i < 17. length (g ! e ! i) = 27"
      "\<forall>i < 17. \<forall>j < 27. g ! e ! i ! j = finalize offset (cell_amin (envs ! e) i j)"
      using props e by simp_all
    from pooled_cell(1)[OF pe ij(1,2)] obtain i' j' where
      w: "i' < 17" "j' < 27" "max_pool2d (g ! e) ! i ! j = g ! e ! i' ! j'" by blast
    have "out ! e ! k = finalize offset (cell_amin (envs ! e) i' j')"
      using props e ij w pe(3) by simp
    then show ?thesis using finalize_cell[of offset "envs ! e" i' j'] by simp
  qed
  then show ?thesis using out props by (intro exI[of _ out]) simp
qed

lemma length_takeWhile_eq:
  assumes "j \<le> length xs" "\<forall>i < j. P (xs ! i)" "j < length xs \<longrightarrow> \<not> P (xs ! j)"
  shows "length (takeWhile P xs) = j"
proof -
  have "takeWhile P xs = take j xs"
    using assms by (intro takeWhile_eq_take_P_nth) auto
  then show ?thesis using assms(1) by simp
qed

lemma x_index_eq:
  assumes k: "k < 17" and lo: "- 0.8 + real k * 0.06 < x"
    and hi: "k < 16 \<longrightarrow> x \<le> - 0.8 + real (Suc k) * 0.06"
  shows "x_index (Fin x, y, z) = int k"
proof -
  have below: "\<forall>i < Suc k. x_bins ! i < x"
  proof (intro allI impI)
    fix i assume i: "i < Suc k"
    then have "real i \<le> real k" by simp
    then have "- 0.8 + real i * 0.06 \<le> - 0.8 + real k * 0.06" by simp
    then show "x_bins ! i < x" using x_bins_nth[of i] i k lo by simp
  qed
  have above: "Suc k < length x_bins \<longrightarrow> \<not> x_bins ! Suc k < x"
  proof
    assume "Suc k < length x_bins"
    then have "k < 16" by (simp add: length_x_bins)
    then show "\<not> x_bins ! Suc k < x" using x_bins_nth[of "Suc k"] hi by simp
  qed
  have "length (takeWhile (\<lambda>b. b < x) x_bins) = Suc k"
    using k by (intro length_takeWhile_eq below above) (simp add: length_x_bins)
  then show ?thesis by (simp add: x_index_def bucketize_def)
qed

lemma y_index_eq:
  assumes k: "k < 27" and lo: "- 0.8 + real k * 0.06 < y"
    and hi: "k < 26 \<longrightarrow> y \<le> - 0.8 + real (Suc k) * 0.06"
  shows "y_index (x, Fin y, z) = int k"
proof -
  have below: "\<forall>i < Suc k. y_bins ! i < y"
  proof (intro allI impI)
    fix i assume i: "i < Suc k"
    then have "real i \<le> real k" by simp
    then have "- 0.8 + real i * 0.06 \<le> - 0.8 + real k * 0.06" by simp
    then show "y_bins ! i < y" using y_bins_nth[of i] i k lo by simp
  qed
  have above: "Suc k < length y_bins \<longrightarrow> \<not> y_bins ! Suc k < y"
  proof
    assume "Suc k < length y_bins"
    then have "k < 26" by (simp add: length_y_bins)
    then show "\<not> y_bins ! Suc k < y" using y_bins_nth[of "Suc k"] hi by simp
  qed
  have "length (takeWhile (\<lambda>b. b < y) y_bins) = Suc k"
    using k by (intro length_takeWhile_eq below above) (simp add: length_y_bins)
  then show ?thesis by (simp add: y_index_def bucketize_def)
qed

lemma selected_cong:
  assumes "map (\<lambda>env. filter valid_indices (hit_vec_lidar_frame env)) envs' =
           map (\<lambda>env. filter valid_indices (hit_vec_lidar_frame env)) envs"
  shows "selected envs' = selected envs"
proof -
  have len: "length envs' = length envs" using assms by (rule map_eq_imp_length_eq)
  have sel: "selected es = concat (map (\<lambda>(e, pts). map (Pair e) pts)
      (enumerate 0 (map (\<lambda>env. filter valid_indices (hit_vec_lidar_frame env)) es)))" for es
    by (simp add: selected_def enumerate_map_upt enumerate_eq_zip map_zip_map2 case_prod_beta)
  show ?thesis unfolding sel assms ..
qed

lemma height_map_lidar_cong:
  assumes "map (\<lambda>env. filter valid_indices (hit_vec_lidar_frame env)) envs' =
           map (\<lambda>env. filter valid_indices (hit_vec_lidar_frame env)) envs"
  shows "height_map_lidar envs' offset = height_map_lidar envs offset"
proof -
  have len: "length envs' = length envs" using assms by (rule map_eq_imp_length_eq)
  have "map_raw envs' = map_raw envs"
    by (simp add: map_raw_def selected_cong[OF assms] len)
  then have "map_2_5D envs' offset = map_2_5D envs offset"
    unfolding map_2_5D_def len by simp
  then show ?thesis by (simp add: height_map_lidar_def)
qed


lemma hit_vec_lidar_frame_rays:
  "hit_vec_lidar_frame (env\<lparr>ray_hits_w := hs\<rparr>) =
     map (\<lambda>h. quat_rotate_inverse (sensor_quat_w env)
            (case vsub h (pos_w env) of (dx, dy, dz) \<Rightarrow> (sanitize dx, sanitize dy, sanitize dz))) hs"
  by (simp add: hit_vec_lidar_frame_def hit_vec_def sensor_quat_w_def)

lemma hit_vec_lidar_frame_map:
  "hit_vec_lidar_frame env =
     map (\<lambda>h. quat_rotate_inverse (sensor_quat_w env)
            (case vsub h (pos_w env) of (dx, dy, dz) \<Rightarrow> (sanitize dx, sanitize dy, sanitize dz)))
       (ray_hits_w env)"
  by (simp add: hit_vec_lidar_frame_def hit_vec_def)

lemma hit_vec_lidar_frame_remove:
  "hit_vec_lidar_frame (env\<lparr>ray_hits_w := take r (ray_hits_w env) @ drop (Suc r) (ray_hits_w env)\<rparr>) =
     take r (hit_vec_lidar_frame env) @ drop (Suc r) (hit_vec_lidar_frame env)"
  by (simp add: hit_vec_lidar_frame_def hit_vec_def sensor_quat_w_def take_map drop_map)




lemma sanitize_simps:
  "sanitize (Fin a) = Fin a" "sanitize NaN = Fin 0" "sanitize PInf = Fin 0" "sanitize NInf = Fin 0"
  by (simp_all add: sanitize_def)

lemma example_sensor_quat:
  "sensor_quat_w (example_env hs) = (Fin (- 0.131), Fin 0, Fin (- 0.991), Fin 0)"
  by (simp add: example_env_def sensor_quat_w_def quat_mul_def sensor_quat_default_def
      fl_sub_def Let_def)

lemma example_rotate:
  "quat_rotate_inverse (Fin (- 0.131), Fin 0, Fin (- 0.991), Fin 0) (Fin a, Fin b, Fin c) =
     (Fin (- 0.965678 * a - 0.259642 * c), Fin (0.998484 * b), Fin (0.259642 * a - 0.965678 * c))"
  by (simp add: quat_rotate_inverse_def vsub_def vadd_def vscale_def cross_def dot_def
      fl_sub_def Let_def algebra_simps)

lemma cell_amin_one_cell:
  assumes "filter valid_indices (hit_vec_lidar_frame env) = ps"
    and "\<forall>p \<in> set ps. x_index p = int a \<and> y_index p = int b"
  shows "cell_amin env i j =
     (if i = a \<and> j = b then fold fl_min (map (\<lambda>p. snd (snd p)) ps) PInf else PInf)"
proof -
  have cp: "cell_points env i j = filter (\<lambda>p. x_index p = int i \<and> y_index p = int j) ps"
    unfolding assms(1)[symmetric] by (simp add: cell_points_def)
  show ?thesis
  proof (cases "i = a \<and> j = b")
    case True
    then have "cell_points env i j = ps" unfolding cp using assms(2) by simp
    then show ?thesis using True by (simp add: cell_amin_def)
  next
    case False
    then have "cell_points env i j = []" unfolding cp using assms(2) by auto
    then have "cell_amin env i j = PInf" by (simp add: cell_amin_def)
    then show ?thesis by (simp only: False if_False)
  qed
qed

lemma single_spike_output:
  assumes g: "\<forall>i < 17. \<forall>j < 27.
      finalize offset (cell_amin env i j) = (if i = a \<and> j = b then Fin h else Fin 0)"
    and h: "0 \<le> h" and ab: "a < 17" "b < 27"
  shows "\<exists>row. height_map_lidar [env] offset = Inr [row] \<and> length row = 17 * 27 \<and>
     (\<forall>i < 17. \<forall>j < 27. row ! (i * 27 + j) =
        (if i - 1 \<le> a \<and> a \<le> i + 1 \<and> j - 1 \<le> b \<and> b \<le> j + 1 then Fin h else Fin 0))"
proof -
  from height_map_lidar_out[of "[env]" offset] obtain gr out where
    out: "height_map_lidar [env] offset = Inr out" "length out = 1"
    and pe: "length (gr ! 0) = 17" "\<forall>i < 17. length (gr ! 0 ! i) = 27"
      "\<forall>i < 17. \<forall>j < 27. gr ! 0 ! i ! j = finalize offset (cell_amin env i j)"
    and lrow: "length (out ! 0) = 17 * 27"
    and pool: "\<forall>i < 17. \<forall>j < 27. out ! 0 ! (i * 27 + j) = max_pool2d (gr ! 0) ! i ! j"
    by auto
  have o1: "out = [out ! 0]" using out(2) by (cases out) auto
  have "out ! 0 ! (i * 27 + j) =
        (if i - 1 \<le> a \<and> a \<le> i + 1 \<and> j - 1 \<le> b \<and> b \<le> j + 1 then Fin h else Fin 0)"
    if ij: "i < 17" "j < 27" for i j
  proof -
    let ?v = "max_pool2d (gr ! 0) ! i ! j"
    from pooled_cell(1)[OF pe ij] obtain i' j' where
      w: "i - 1 \<le> i'" "i' \<le> i + 1" "i' < 17" "j - 1 \<le> j'" "j' \<le> j + 1" "j' < 27"
      and v: "?v = gr ! 0 ! i' ! j'" by blast
    have v': "?v = (if i' = a \<and> j' = b then Fin h else Fin 0)"
      unfolding v using pe(3) g w(3,6) by simp
    have "?v = (if i - 1 \<le> a \<and> a \<le> i + 1 \<and> j - 1 \<le> b \<and> b \<le> j + 1 then Fin h else Fin 0)"
    proof (cases "i - 1 \<le> a \<and> a \<le> i + 1 \<and> j - 1 \<le> b \<and> b \<le> j + 1")
      case True
      then have "fl_le (gr ! 0 ! a ! b) ?v"
        using pooled_cell(2)[OF pe ij] ab by simp
      moreover have "gr ! 0 ! a ! b = Fin h" using pe(3) g ab by simp
      ultimately have "fl_le (Fin h) ?v" by simp
      then have "?v = Fin h" unfolding v' using h by (simp split: if_splits)
      then show ?thesis using True by simp
    next
      case False
      then have nw: "\<not> (i' = a \<and> j' = b)" using w by auto
      have "?v = Fin 0" unfolding v' by (simp only: nw if_False)
      then show ?thesis by (simp only: False if_False)
    qed
    then show ?thesis using pool ij by simp
  qed
  then show ?thesis using out(1) o1 lrow by (intro exI[of _ "out ! 0"]) simp
qed

lemma example_frame: "hit_vec_lidar_frame (example_env hs) = map example_point hs"
  by (simp add: hit_vec_lidar_frame_map example_point_def example_env_def sensor_quat_w_def)

lemma example_point_Fin:
  "example_point (Fin a, Fin b, Fin c) =
     (Fin (- 0.965678 * a - 0.259642 * c), Fin (0.998484 * b), Fin (0.259642 * a - 0.965678 * c))"
proof -
  have "example_point (Fin a, Fin b, Fin c) =
      quat_rotate_inverse (Fin (- 0.131), Fin 0, Fin (- 0.991), Fin 0) (Fin a, Fin b, Fin c)"
    unfolding example_point_def example_sensor_quat
    by (simp add: example_env_def vsub_def fl_sub_def sanitize_simps)
  also have "\<dots> = (Fin (- 0.965678 * a - 0.259642 * c), Fin (0.998484 * b),
      Fin (0.259642 * a - 0.965678 * c))"
    by (rule example_rotate)
  finally show ?thesis .
qed

lemma example_point_missing:
  assumes "\<not> isfinite a" "\<not> isfinite b" "\<not> isfinite c"
  shows "example_point (a, b, c) = (Fin 0, Fin 0, Fin 0)"
proof -
  have s: "sanitize (fl_sub a (Fin 0)) = Fin 0" "sanitize (fl_sub b (Fin 0)) = Fin 0"
    "sanitize (fl_sub c (Fin 0)) = Fin 0"
    using assms by (cases a; cases b; cases c; simp add: sanitize_simps fl_sub_def)+
  have "example_point (a, b, c) =
      quat_rotate_inverse (Fin (- 0.131), Fin 0, Fin (- 0.991), Fin 0) (Fin 0, Fin 0, Fin 0)"
    unfolding example_point_def example_sensor_quat
    by (simp add: example_env_def vsub_def s)
  also have "\<dots> = (Fin 0, Fin 0, Fin 0)"
    unfolding example_rotate by simp
  finally show ?thesis .
qed

lemma straight_hit_point: "example_point straight_hit = (Fin 0, Fin 0, Fin 1.2)"
  unfolding straight_hit_def example_point_Fin by simp

lemma low_hit_point: "example_point low_hit = (Fin 0, Fin 0, Fin 0.3)"
  unfolding low_hit_def example_point_Fin by simp

lemma far_hit_point: "example_point far_hit = (Fin (- 9.65678), Fin 0, Fin 2.59642)"
  unfolding far_hit_def example_point_Fin by simp

lemma centre_cell:
  "x_index (Fin 0, Fin 0, z) = 13" "y_index (Fin 0, Fin 0, z) = 13"
  using x_index_eq[of 13 0 "Fin 0" z] y_index_eq[of 13 0 "Fin 0" z] by simp_all

lemma centre_valid:
  "valid_indices (Fin 0, Fin 0, Fin 1.2)" "valid_indices (Fin 0, Fin 0, Fin 0)"
  "\<not> valid_indices (Fin (- 9.65678), Fin 0, Fin 2.59642)"
  by (simp_all add: valid_indices_def range_x_def range_y_def range_z_def)

lemma centre_points_output:
  assumes ps: "filter valid_indices (hit_vec_lidar_frame env) = ps"
    and c: "\<forall>p \<in> set ps. \<exists>z. p = (Fin 0, Fin 0, z)"
    and m: "finalize offset (fold fl_min (map (\<lambda>p. snd (snd p)) ps) PInf) = Fin h" and h: "0 \<le> h"
  shows "\<exists>row. height_map_lidar [env] offset = Inr [row] \<and> length row = 17 * 27 \<and>
     (\<forall>i < 17. \<forall>j < 27. row ! (i * 27 + j) =
        (if 12 \<le> i \<and> i \<le> 14 \<and> 12 \<le> j \<and> j \<le> 14 then Fin h else Fin 0))"
proof -
  have idx: "\<forall>p \<in> set ps. x_index p = int 13 \<and> y_index p = int 13"
    using c centre_cell by auto
  have g: "\<forall>i < 17. \<forall>j < 27.
      finalize offset (cell_amin env i j) = (if i = 13 \<and> j = 13 then Fin h else Fin 0)"
    unfolding cell_amin_one_cell[OF ps idx] using m by (simp add: finalize_PInf)
  from single_spike_output[OF g h] obtain row where
    row: "height_map_lidar [env] offset = Inr [row]" "length row = 17 * 27"
    and cells: "\<forall>i < 17. \<forall>j < 27. row ! (i * 27 + j) =
        (if i - 1 \<le> 13 \<and> 13 \<le> i + 1 \<and> j - 1 \<le> 13 \<and> 13 \<le> j + 1 then Fin h else Fin 0)"
    by auto
  have w: "(i - 1 \<le> 13 \<and> 13 \<le> i + 1 \<and> j - 1 \<le> 13 \<and> 13 \<le> j + 1) =
           (12 \<le> i \<and> i \<le> 14 \<and> 12 \<le> j \<and> j \<le> 14)" for i j :: nat
    by auto
  show ?thesis using row cells unfolding w by blast
qed

lemma sanitize_zero_displacement:
  "sanitize (fl_sub a a) = Fin 0" "sanitize (fl_sub NaN a) = Fin 0"
  by (cases a; simp add: sanitize_def fl_sub_def)+

lemma hit_vec_lidar_frame_replace:
  "hit_vec_lidar_frame (env\<lparr>ray_hits_w := (ray_hits_w env)[r := h]\<rparr>) =
     (hit_vec_lidar_frame env)
       [r := quat_rotate_inverse (sensor_quat_w env)
               (case vsub h (pos_w env) of (dx, dy, dz) \<Rightarrow> (sanitize dx, sanitize dy, sanitize dz))]"
  by (simp add: hit_vec_lidar_frame_def hit_vec_def sensor_quat_w_def map_update)

lemma nan_ray_frame:
  "hit_vec_lidar_frame (env\<lparr>ray_hits_w := (ray_hits_w env)[r := (NaN, NaN, NaN)]\<rparr>) =
     (hit_vec_lidar_frame env)[r := quat_rotate_inverse (sensor_quat_w env) (Fin 0, Fin 0, Fin 0)]"
  unfolding hit_vec_lidar_frame_replace
  by (cases "pos_w env") (simp add: vsub_def sanitize_zero_displacement)

lemma origin_ray_frame:
  "hit_vec_lidar_frame (env\<lparr>ray_hits_w := (ray_hits_w env)[r := pos_w env]\<rparr>) =
     (hit_vec_lidar_frame env)[r := quat_rotate_inverse (sensor_quat_w env) (Fin 0, Fin 0, Fin 0)]"
  unfolding hit_vec_lidar_frame_replace
  by (cases "pos_w env") (simp add: vsub_def sanitize_zero_displacement)

lemma filter_update_invalid:
  assumes "r < length xs" "\<not> P z"
  shows "filter P (xs[r := z]) = filter P (take r xs @ drop (Suc r) xs)"
  using assms by (simp add: upd_conv_take_nth_drop)

lemma rotate_zero_finite:
  "quat_rotate_inverse (Fin qw, Fin qx, Fin qy, Fin qz) (Fin 0, Fin 0, Fin 0) = (Fin 0, Fin 0, Fin 0)"
  by (simp add: quat_rotate_inverse_def vsub_def vadd_def vscale_def cross_def dot_def
      fl_sub_def Let_def)

lemma takeWhile_prefix_holds:
  assumes "i < length (takeWhile P xs)"
  shows "P (xs ! i)"
proof -
  have "takeWhile P xs ! i \<in> set (takeWhile P xs)" using assms by simp
  then have "P (takeWhile P xs ! i)" by (rule set_takeWhileD[THEN conjunct2])
  then show ?thesis using takeWhile_nth[OF assms] by simp
qed

lemma x_index_bin:
  assumes "valid_indices (Fin x, y, z)"
  shows "\<exists>j < length x_bins. x_index (Fin x, y, z) = int j \<and> (\<forall>i \<le> j. x_bins ! i < x) \<and>
           (Suc j < length x_bins \<longrightarrow> x \<le> x_bins ! Suc j)"
proof -
  let ?n = "length (takeWhile (\<lambda>b. b < x) x_bins)"
  from valid_index_bounds[OF assms]
  have b: "0 \<le> x_index (Fin x, y, z)" "x_index (Fin x, y, z) < 17" by simp_all
  have xi: "x_index (Fin x, y, z) = int ?n - 1" by (simp add: x_index_def bucketize_def)
  with b have n: "1 \<le> ?n" "?n \<le> 17" by linarith+
  define j where "j = ?n - 1"
  have j: "j < length x_bins" "x_index (Fin x, y, z) = int j" "Suc j = ?n"
    using n xi unfolding j_def length_x_bins by linarith+
  have lo: "\<forall>i \<le> j. x_bins ! i < x"
  proof (intro allI impI)
    fix i assume "i \<le> j"
    then have "i < ?n" using j(3) by simp
    then show "x_bins ! i < x" by (rule takeWhile_prefix_holds)
  qed
  have hi: "Suc j < length x_bins \<longrightarrow> x \<le> x_bins ! Suc j"
  proof
    assume "Suc j < length x_bins"
    then have "?n < length x_bins" using j(3) by simp
    then have "\<not> x_bins ! ?n < x" by (rule nth_length_takeWhile)
    then show "x \<le> x_bins ! Suc j" using j(3) by simp
  qed
  show ?thesis using j(1,2) lo hi by blast
qed

lemma x_index_edge:
  assumes "1 \<le> k" "k < length x_bins"
  shows "x_bins ! k = fst range_x + real k * voxel_size_xy"
    "x_index (Fin (x_bins ! k), y, z) = int k - 1"
proof -
  have k: "k < 17" using assms(2) by (simp add: length_x_bins)
  show e: "x_bins ! k = fst range_x + real k * voxel_size_xy"
    using x_bins_nth[OF k] by (simp add: range_x_def voxel_size_xy_def)
  obtain k' where k': "k = Suc k'" using assms(1) by (cases k) auto
  have "x_index (Fin (x_bins ! k), y, z) = int k'"
  proof (rule x_index_eq)
    show "k' < 17" using k k' by simp
    show "- 0.8 + real k' * 0.06 < x_bins ! k" using x_bins_nth[OF k] k' by simp
    show "k' < 16 \<longrightarrow> x_bins ! k \<le> - 0.8 + real (Suc k') * 0.06"
      using x_bins_nth[OF k] k' by simp
  qed
  then show "x_index (Fin (x_bins ! k), y, z) = int k - 1" using k' by simp
qed

lemma selected_frames_eq: "selected_frames (map hit_vec_lidar_frame envs) = selected envs"
  by (simp add: selected_frames_def selected_def enumerate_map_upt enumerate_eq_zip
      map_zip_map2 case_prod_beta)

lemma fill_sanitize: "fill isnan (fill isinf v) = sanitize v"
  by (simp add: fill_def sanitize_def)

lemma masked_fill_last:
  "masked_fill cond (length st) (st @ [Points v]) =
     st @ [Points (map (map (\<lambda>p. case p of (x, y, z) \<Rightarrow>
                               (fill cond x, fill cond y, fill cond z))) v)]"
  by (simp add: masked_fill_def)

lemma frames_eq:
  "map (\<lambda>(env, hv). map (quat_rotate_inverse (sensor_quat_w env)) hv)
     (zip envs (map hit_vec envs)) = map hit_vec_lidar_frame envs"
  by (induction envs) (simp_all add: hit_vec_lidar_frame_def)

lemma filled_eq:
  "map (map (\<lambda>p. case p of (x, y, z) \<Rightarrow> (fill isnan x, fill isnan y, fill isnan z)))
     (map (map (\<lambda>p. case p of (x, y, z) \<Rightarrow> (fill isinf x, fill isinf y, fill isinf z)))
        (map (\<lambda>env. map (\<lambda>h. vsub h (pos_w env)) (ray_hits_w env)) envs)) =
   map hit_vec envs"
  by (simp add: hit_vec_def fill_sanitize case_prod_beta)

lemma height_map_lidar_call_eq:
  assumes "store s ! sensor = Buffers envs"
  shows "height_map_lidar_call sensor offset s =
     (height_map_lidar envs offset,
      s\<lparr>store := store s @ [Points (map hit_vec envs),
                 Flat (case map_raw envs of
                         Inl err \<Rightarrow> replicate (length envs * length x_bins * length y_bins) PInf
                       | Inr m \<Rightarrow> m)]\<rparr>)"
proof -
  let ?st3 = "store s @ [Points (map hit_vec envs)]"
  let ?m0 = "replicate (length envs * length x_bins * length y_bins) PInf"
  have st3: "masked_fill isnan (length (store s)) (masked_fill isinf (length (store s))
      (store s @ [Points (map (\<lambda>env. map (\<lambda>h. vsub h (pos_w env)) (ray_hits_w env)) envs)])) = ?st3"
    by (simp only: masked_fill_last filled_eq)
  have rd: "?st3 ! length (store s) = Points (map hit_vec envs)" by simp
  have l3: "length ?st3 = Suc (length (store s))" by simp
  have rd4: "(?st3 @ [Flat ?m0]) ! Suc (length (store s)) = Flat ?m0"
    using nth_append_length[of ?st3 "Flat ?m0"] by (simp only: l3)
  have up4: "(?st3 @ [Flat ?m0])[Suc (length (store s)) := Flat m] = ?st3 @ [Flat m]" for m
    using list_update_length[of ?st3 "Flat ?m0" "[]" "Flat m"] by (simp only: l3)
  have raw: "scatter_reduce_amin ?m0
      (map (\<lambda>ep. (linear_index ep, snd (snd (snd ep)))) (selected envs)) = map_raw envs"
    by (simp add: map_raw_def)
  have call: "height_map_lidar_call sensor offset s =
      (case map_raw envs of
         Inl err \<Rightarrow> (Inl err, s\<lparr>store := ?st3 @ [Flat ?m0]\<rparr>)
       | Inr m \<Rightarrow>
           (Inr (map (\<lambda>g. concat (max_pool2d g))
                   (map (view2 (length x_bins) (length y_bins))
                      (view2 (length envs) (length x_bins * length y_bins)
                         (map (finalize offset) m)))),
            s\<lparr>store := ?st3 @ [Flat m]\<rparr>))"
    unfolding height_map_lidar_call_def assms object.case alloc_def Let_def prod.case st3 l3
      rd object.case frames_eq selected_frames_eq rd4 raw up4 ..
  show ?thesis
    unfolding call by (cases "map_raw envs") (simp_all add: height_map_lidar_def map_2_5D_def)
qed

section \<open>Properties of height_map_lidar\<close>

text \<open>
  C2. Every value of the tensor returned by \<^verbatim>\<open>height_map_lidar\<close> is exactly 0.0 or at
  least 0.05: a cell whose reduced height minus the offset is below 0.05 is 0.0 in the
  grid before pooling, and the pooled rows contain only 0.0 and values of at least 0.05.
\<close>

theorem height_map_lidar_threshold:
  "\<exists>g out. map_2_5D envs offset = Inr g \<and> height_map_lidar envs offset = Inr out \<and>
     length out = length envs \<and>
     (\<forall>e < length envs.
        (\<forall>xi < length x_bins. \<forall>yi < length y_bins. \<forall>z.
           cell_amin (envs ! e) xi yi = Fin z \<and> z - offset < 0.05 \<longrightarrow> g ! e ! xi ! yi = Fin 0) \<and>
        length (out ! e) = length x_bins * length y_bins \<and>
        (\<forall>v \<in> set (out ! e). \<exists>r. v = Fin r \<and> (r = 0 \<or> 0.05 \<le> r)))"
proof -
  from height_map_lidar_out[of envs offset] obtain g out where
    g: "map_2_5D envs offset = Inr g" and out: "height_map_lidar envs offset = Inr out"
    and props: "\<forall>e < length envs.
        length (g ! e) = 17 \<and> (\<forall>i < 17. length (g ! e ! i) = 27) \<and>
        (\<forall>i < 17. \<forall>j < 27. g ! e ! i ! j = finalize offset (cell_amin (envs ! e) i j)) \<and>
        length (out ! e) = 17 * 27 \<and>
        (\<forall>i < 17. \<forall>j < 27. out ! e ! (i * 27 + j) = max_pool2d (g ! e) ! i ! j)"
    by blast
  from height_map_lidar_values[of envs offset] out have
    vals: "length out = length envs" "\<forall>e < length envs. length (out ! e) = 17 * 27 \<and>
        (\<forall>k < 17 * 27. \<exists>r. out ! e ! k = Fin r \<and> (r = 0 \<or> 0.05 \<le> r))"
    by auto
  have "(\<forall>xi < length x_bins. \<forall>yi < length y_bins. \<forall>z.
           cell_amin (envs ! e) xi yi = Fin z \<and> z - offset < 0.05 \<longrightarrow> g ! e ! xi ! yi = Fin 0) \<and>
        length (out ! e) = length x_bins * length y_bins \<and>
        (\<forall>v \<in> set (out ! e). \<exists>r. v = Fin r \<and> (r = 0 \<or> 0.05 \<le> r))"
    if e: "e < length envs" for e
  proof (intro conjI allI impI ballI)
    fix xi yi z
    assume "xi < length x_bins" "yi < length y_bins"
      and z: "cell_amin (envs ! e) xi yi = Fin z \<and> z - offset < 0.05"
    then have "g ! e ! xi ! yi = finalize offset (Fin z)"
      using props e by (simp add: length_x_bins length_y_bins)
    then show "g ! e ! xi ! yi = Fin 0" using z by (simp add: finalize_Fin)
  next
    show "length (out ! e) = length x_bins * length y_bins"
      using vals e by (simp add: length_x_bins length_y_bins)
  next
    fix v assume "v \<in> set (out ! e)"
    then obtain k where "k < length (out ! e)" "v = out ! e ! k"
      by (auto simp: in_set_conv_nth)
    then show "\<exists>r. v = Fin r \<and> (r = 0 \<or> 0.05 \<le> r)" using vals e by simp
  qed
  then show ?thesis using g out vals(1) by blast
qed

text \<open>One hit seen at \<open>(0, 0, 1.2)\<close>: the pooled cells hold 0.7, the others 0.0.\<close>

theorem height_map_lidar_threshold_witness:
  "\<exists>out. height_map_lidar [example_env [straight_hit, far_hit]] 0.5 = Inr out \<and>
     length out = 1 \<and> length (out ! 0) = 459 \<and>
     out ! 0 ! 364 = Fin 0.7 \<and> (0.05 :: real) \<le> 0.7 \<and> out ! 0 ! 0 = Fin 0"
proof -
  let ?E = "example_env [straight_hit, far_hit]"
  from height_map_lidar_threshold[of "[?E]" "0.5"] obtain out where
    out: "height_map_lidar [?E] 0.5 = Inr out" "length out = length [?E]"
    and len: "length (out ! 0) = length x_bins * length y_bins"
    and vals: "\<forall>v \<in> set (out ! 0). \<exists>r. v = Fin r \<and> (r = 0 \<or> 0.05 \<le> r)"
    by auto
  have ps: "filter valid_indices (hit_vec_lidar_frame ?E) = [(Fin 0, Fin 0, Fin 1.2)]"
    using centre_valid by (simp add: example_frame straight_hit_point far_hit_point)
  have m: "finalize 0.5 (fold fl_min (map (\<lambda>p. snd (snd p)) [(Fin 0, Fin 0, Fin 1.2)]) PInf) = Fin 0.7"
    by (simp add: fl_min_def finalize_Fin)
  from centre_points_output[OF ps _ m] out(1) have
    cells: "\<forall>i < 17. \<forall>j < 27. out ! 0 ! (i * 27 + j) =
        (if 12 \<le> i \<and> i \<le> 14 \<and> 12 \<le> j \<and> j \<le> 14 then Fin 0.7 else Fin 0)"
    by auto
  have c: "out ! 0 ! 364 = Fin 0.7" using cells[rule_format, of 13 13] by simp
  have z: "out ! 0 ! 0 = Fin 0" using cells[rule_format, of 0 0] by simp
  have l: "length (out ! 0) = 459" using len by (simp add: length_x_bins length_y_bins)
  have "out ! 0 ! 364 \<in> set (out ! 0)" using l by simp
  with vals c have "(0.05 :: real) \<le> 0.7" by auto
  then show ?thesis using out c z l by simp
qed

text \<open>
  C3. Whatever the ray hits, the sensor position and the robot orientation are (\<open>NaN\<close>
  and infinite coordinates included), \<^verbatim>\<open>height_map_lidar\<close> returns a tensor with one
  row of \<open>Bx * By\<close> values per environment, and no value in it is \<open>NaN\<close> or infinite.
\<close>

theorem height_map_lidar_no_nan_inf:
  "\<exists>out. height_map_lidar envs offset = Inr out \<and> length out = length envs \<and>
     (\<forall>row \<in> set out. length row = length x_bins * length y_bins \<and>
        (\<forall>v \<in> set row. \<not> isnan v \<and> \<not> isinf v))"
proof -
  from height_map_lidar_values[of envs offset] obtain out where
    out: "height_map_lidar envs offset = Inr out" "length out = length envs"
    and vals: "\<forall>e < length envs. length (out ! e) = 17 * 27 \<and>
        (\<forall>k < 17 * 27. \<exists>r. out ! e ! k = Fin r \<and> (r = 0 \<or> 0.05 \<le> r))"
    by blast
  have "length row = length x_bins * length y_bins \<and> (\<forall>v \<in> set row. \<not> isnan v \<and> \<not> isinf v)"
    if "row \<in> set out" for row
  proof -
    from that obtain e where e: "e < length out" "row = out ! e"
      by (auto simp: in_set_conv_nth)
    have l: "length row = 17 * 27" using vals e out(2) by simp
    have "\<not> isnan v \<and> \<not> isinf v" if "v \<in> set row" for v
    proof -
      from that obtain k where k: "k < length row" "v = row ! k"
        by (auto simp: in_set_conv_nth)
      from vals e k l out(2) obtain r where "v = Fin r" by auto
      then show ?thesis by simp
    qed
    then show ?thesis using l by (simp add: length_x_bins length_y_bins)
  qed
  then show ?thesis using out by blast
qed

text \<open>
  A batch with a \<open>NaN\<close> sensor coordinate, \<open>NaN\<close> and infinite ray hits and an infinite
  quaternion component.
\<close>

theorem height_map_lidar_no_nan_inf_witness:
  "\<exists>out. height_map_lidar
       [\<lparr>pos_w = (Fin 0, NaN, Fin 0), ray_hits_w = [(NaN, NaN, NaN), (PInf, NInf, Fin 1)],
         root_quat_w = (Fin 1, Fin 0, PInf, Fin 0)\<rparr>] 0.5 = Inr out \<and>
     length out = 1 \<and> length (out ! 0) = 459 \<and>
     \<not> isnan (out ! 0 ! 364) \<and> \<not> isinf (out ! 0 ! 364) \<and>
     \<not> isnan (out ! 0 ! 0) \<and> \<not> isinf (out ! 0 ! 0)"
proof -
  let ?E = "\<lparr>pos_w = (Fin 0, NaN, Fin 0), ray_hits_w = [(NaN, NaN, NaN), (PInf, NInf, Fin 1)],
         root_quat_w = (Fin 1, Fin 0, PInf, Fin 0)\<rparr>"
  from height_map_lidar_no_nan_inf[of "[?E]" "0.5"] obtain out where
    out: "height_map_lidar [?E] 0.5 = Inr out" "length out = 1"
    and rows: "\<forall>row \<in> set out. length row = length x_bins * length y_bins \<and>
        (\<forall>v \<in> set row. \<not> isnan v \<and> \<not> isinf v)"
    by auto
  have "out ! 0 \<in> set out" using out(2) by simp
  with rows have l: "length (out ! 0) = 459"
    and vals: "\<forall>v \<in> set (out ! 0). \<not> isnan v \<and> \<not> isinf v"
    by (simp_all add: length_x_bins length_y_bins)
  have "out ! 0 ! 364 \<in> set (out ! 0)" "out ! 0 ! 0 \<in> set (out ! 0)" using l by simp_all
  with vals show ?thesis using out l by blast
qed

text \<open>
  C7. For every environment and every cell of the grid, the value after the 3x3 max
  pooling is at least the value of the same cell before pooling.
\<close>

theorem max_pool_above_pre_pool:
  "\<exists>g out. map_2_5D envs offset = Inr g \<and> height_map_lidar envs offset = Inr out \<and>
     (\<forall>e < length envs. \<forall>i < length x_bins. \<forall>j < length y_bins.
        fl_le (g ! e ! i ! j) (out ! e ! (i * length y_bins + j)))"
proof -
  from height_map_lidar_out[of envs offset] obtain g out where
    g: "map_2_5D envs offset = Inr g" and out: "height_map_lidar envs offset = Inr out"
    and props: "\<forall>e < length envs.
        length (g ! e) = 17 \<and> (\<forall>i < 17. length (g ! e ! i) = 27) \<and>
        (\<forall>i < 17. \<forall>j < 27. g ! e ! i ! j = finalize offset (cell_amin (envs ! e) i j)) \<and>
        length (out ! e) = 17 * 27 \<and>
        (\<forall>i < 17. \<forall>j < 27. out ! e ! (i * 27 + j) = max_pool2d (g ! e) ! i ! j)"
    by blast
  have "fl_le (g ! e ! i ! j) (out ! e ! (i * length y_bins + j))"
    if e: "e < length envs" and i: "i < length x_bins" and j: "j < length y_bins" for e i j
  proof -
    have ij: "i < 17" "j < 27" using i j by (simp_all add: length_x_bins length_y_bins)
    have pe: "length (g ! e) = 17" "\<forall>i < 17. length (g ! e ! i) = 27"
      "\<forall>i < 17. \<forall>j < 27. g ! e ! i ! j = finalize offset (cell_amin (envs ! e) i j)"
      using props e by simp_all
    have "fl_le (g ! e ! i ! j) (max_pool2d (g ! e) ! i ! j)"
      using pooled_cell(2)[OF pe ij] ij by simp
    then show ?thesis using props e ij by (simp add: length_y_bins)
  qed
  then show ?thesis using g out by blast
qed

text \<open>
  One hit seen at \<open>(0, 0, 1.2)\<close>: cell \<open>(13, 13)\<close> is 0.7 before and after pooling, its
  neighbour \<open>(12, 12)\<close> is 0.0 before and 0.7 after.
\<close>

theorem max_pool_above_pre_pool_witness:
  "\<exists>g out. map_2_5D [example_env [straight_hit]] 0.5 = Inr g \<and>
     height_map_lidar [example_env [straight_hit]] 0.5 = Inr out \<and>
     g ! 0 ! 13 ! 13 = Fin 0.7 \<and> out ! 0 ! 364 = Fin 0.7 \<and>
     g ! 0 ! 12 ! 12 = Fin 0 \<and> out ! 0 ! 336 = Fin 0.7 \<and>
     fl_le (g ! 0 ! 13 ! 13) (out ! 0 ! 364) \<and> fl_le (g ! 0 ! 12 ! 12) (out ! 0 ! 336)"
proof -
  let ?E = "example_env [straight_hit]"
  from max_pool_above_pre_pool[of "[?E]" "0.5"] obtain g out where
    go: "map_2_5D [?E] 0.5 = Inr g" "height_map_lidar [?E] 0.5 = Inr out"
    and le: "\<forall>i < length x_bins. \<forall>j < length y_bins.
        fl_le (g ! 0 ! i ! j) (out ! 0 ! (i * length y_bins + j))"
    by auto
  have ps: "filter valid_indices (hit_vec_lidar_frame ?E) = [(Fin 0, Fin 0, Fin 1.2)]"
    using centre_valid by (simp add: example_frame straight_hit_point)
  have idx: "\<forall>p \<in> set [(Fin 0, Fin 0, Fin 1.2)]. x_index p = int 13 \<and> y_index p = int 13"
    using centre_cell by simp
  have m: "finalize 0.5 (fold fl_min (map (\<lambda>p. snd (snd p)) [(Fin 0, Fin 0, Fin 1.2)]) PInf) = Fin 0.7"
    by (simp add: fl_min_def finalize_Fin)
  from centre_points_output[OF ps _ m] go(2) have
    cells: "\<forall>i < 17. \<forall>j < 27. out ! 0 ! (i * 27 + j) =
        (if 12 \<le> i \<and> i \<le> 14 \<and> 12 \<le> j \<and> j \<le> 14 then Fin 0.7 else Fin 0)"
    by auto
  from map_2_5D_cell[of "[?E]" "0.5"] go(1) have
    gc: "\<forall>xi < 17. \<forall>yi < 27. g ! 0 ! xi ! yi = finalize 0.5 (cell_amin ?E xi yi)"
    by auto
  have g13: "g ! 0 ! 13 ! 13 = Fin 0.7"
    using gc[rule_format, of 13 13] m by (simp add: cell_amin_one_cell[OF ps idx])
  have g12: "g ! 0 ! 12 ! 12 = Fin 0"
    using gc[rule_format, of 12 12] by (simp add: cell_amin_one_cell[OF ps idx] finalize_PInf)
  have o13: "out ! 0 ! 364 = Fin 0.7" using cells[rule_format, of 13 13] by simp
  have o12: "out ! 0 ! 336 = Fin 0.7" using cells[rule_format, of 12 12] by simp
  have l13: "fl_le (g ! 0 ! 13 ! 13) (out ! 0 ! 364)"
    using le[rule_format, of 13 13] by (simp add: length_x_bins length_y_bins)
  have l12: "fl_le (g ! 0 ! 12 ! 12) (out ! 0 ! 336)"
    using le[rule_format, of 12 12] by (simp add: length_x_bins length_y_bins)
  show ?thesis
    by (rule exI[of _ g], rule exI[of _ out]) (intro conjI go g13 o13 g12 o12 l13 l12)
qed

text \<open>
  C1 as stated fails in its clause on empty cells: with one hit seen at \<open>(0, 0, 1.2)\<close>,
  cell \<open>(12, 12)\<close> has no point and is 0.0 in the grid before pooling, but the pooling
  window of that cell contains cell \<open>(13, 13)\<close>, so the returned tensor holds 0.7 there.
\<close>

theorem empty_cell_output_counterexample:
  "cell_points (example_env [straight_hit]) 12 12 = [] \<and>
   (\<exists>g out. map_2_5D [example_env [straight_hit]] 0.5 = Inr g \<and>
      height_map_lidar [example_env [straight_hit]] 0.5 = Inr out \<and>
      g ! 0 ! 12 ! 12 = Fin 0 \<and> out ! 0 ! 336 = Fin 0.7 \<and> out ! 0 ! 336 \<noteq> Fin 0)"
proof -
  let ?E = "example_env [straight_hit]"
  have fr: "hit_vec_lidar_frame ?E = [(Fin 0, Fin 0, Fin 1.2)]"
    by (simp add: example_frame straight_hit_point)
  have ps: "filter valid_indices (hit_vec_lidar_frame ?E) = [(Fin 0, Fin 0, Fin 1.2)]"
    using centre_valid by (simp add: fr)
  have idx: "\<forall>p \<in> set [(Fin 0, Fin 0, Fin 1.2)]. x_index p = int 13 \<and> y_index p = int 13"
    using centre_cell by simp
  have empty: "cell_points ?E 12 12 = []"
    using centre_cell by (simp add: cell_points_def fr)
  have m: "finalize 0.5 (fold fl_min (map (\<lambda>p. snd (snd p)) [(Fin 0, Fin 0, Fin 1.2)]) PInf) = Fin 0.7"
    by (simp add: fl_min_def finalize_Fin)
  from centre_points_output[OF ps _ m] obtain row where
    row: "height_map_lidar [?E] 0.5 = Inr [row]"
    and cells: "\<forall>i < 17. \<forall>j < 27. row ! (i * 27 + j) =
        (if 12 \<le> i \<and> i \<le> 14 \<and> 12 \<le> j \<and> j \<le> 14 then Fin 0.7 else Fin 0)"
    by auto
  from map_2_5D_cell[of "[?E]" "0.5"] obtain g where g: "map_2_5D [?E] 0.5 = Inr g"
    and gc: "\<forall>xi < 17. \<forall>yi < 27. g ! 0 ! xi ! yi = finalize 0.5 (cell_amin ?E xi yi)"
    by auto
  have g12: "g ! 0 ! 12 ! 12 = Fin 0"
    using gc[rule_format, of 12 12] by (simp add: cell_amin_one_cell[OF ps idx] finalize_PInf)
  have o12: "[row] ! 0 ! 336 = Fin 0.7" using cells[rule_format, of 12 12] by simp
  have n12: "[row] ! 0 ! 336 \<noteq> Fin 0" unfolding o12 by simp
  have "\<exists>g out. map_2_5D [?E] 0.5 = Inr g \<and> height_map_lidar [?E] 0.5 = Inr out \<and>
      g ! 0 ! 12 ! 12 = Fin 0 \<and> out ! 0 ! 336 = Fin 0.7 \<and> out ! 0 ! 336 \<noteq> Fin 0"
    by (rule exI[of _ g], rule exI[of _ "[row]"]) (intro conjI g row g12 o12 n12)
  then show ?thesis using empty by simp
qed

text \<open>
  C1, as amended. The scatter reduction succeeds and yields one value per environment
  and cell. The value stored for cell \<open>(xi, yi)\<close> of environment \<open>e\<close>, at flat position
  \<open>e * Bx * By + xi * By + yi\<close>, is the minimum z of the selected points of that
  environment binned into the cell: it is the z of one of them and at most the z of each.
  A cell without points keeps \<open>\<infinity>\<close> and is 0.0 in the grid after the offset, threshold
  and infinity replacement, before pooling; in the returned tensor it is 0.0 when every
  cell of its 3x3 pooling window is without points. The stored value depends on the
  points of environment \<open>e\<close> only: every batch that has the same sensor-frame points at
  position \<open>e\<close> stores the same value there.
\<close>

theorem map_raw_cell_minimum:
  "\<exists>m g out. map_raw envs = Inr m \<and> map_2_5D envs offset = Inr g \<and>
     height_map_lidar envs offset = Inr out \<and>
     length m = length envs * length x_bins * length y_bins \<and>
     (\<forall>e < length envs. \<forall>xi < length x_bins. \<forall>yi < length y_bins.
        (cell_points (envs ! e) xi yi = [] \<longrightarrow>
           m ! flat_index e xi yi = PInf \<and> g ! e ! xi ! yi = Fin 0 \<and>
           ((\<forall>i' j'. xi - 1 \<le> i' \<and> i' \<le> xi + 1 \<and> i' < length x_bins \<and>
                    yi - 1 \<le> j' \<and> j' \<le> yi + 1 \<and> j' < length y_bins \<longrightarrow>
                    cell_points (envs ! e) i' j' = []) \<longrightarrow>
            out ! e ! (xi * length y_bins + yi) = Fin 0)) \<and>
        (cell_points (envs ! e) xi yi \<noteq> [] \<longrightarrow>
           (\<exists>p \<in> set (cell_points (envs ! e) xi yi). m ! flat_index e xi yi = snd (snd p)) \<and>
           (\<forall>p \<in> set (cell_points (envs ! e) xi yi). fl_le (m ! flat_index e xi yi) (snd (snd p)))) \<and>
        (\<forall>envs' m'. map_raw envs' = Inr m' \<and> e < length envs' \<and>
           hit_vec_lidar_frame (envs' ! e) = hit_vec_lidar_frame (envs ! e) \<longrightarrow>
           m' ! flat_index e xi yi = m ! flat_index e xi yi))"
proof -
  from map_raw_cell[of envs] obtain m where m: "map_raw envs = Inr m"
    and len: "length m = length envs * 17 * 27"
    and cell: "\<forall>e < length envs. \<forall>xi < 17. \<forall>yi < 27.
        m ! flat_index e xi yi = cell_amin (envs ! e) xi yi"
    unfolding cell_amin_def by blast
  from height_map_lidar_out[of envs offset] obtain g out where
    g: "map_2_5D envs offset = Inr g" and out: "height_map_lidar envs offset = Inr out"
    and props: "\<forall>e < length envs.
        length (g ! e) = 17 \<and> (\<forall>i < 17. length (g ! e ! i) = 27) \<and>
        (\<forall>i < 17. \<forall>j < 27. g ! e ! i ! j = finalize offset (cell_amin (envs ! e) i j)) \<and>
        length (out ! e) = 17 * 27 \<and>
        (\<forall>i < 17. \<forall>j < 27. out ! e ! (i * 27 + j) = max_pool2d (g ! e) ! i ! j)"
    by blast
  have cells: "\<forall>e < length envs. \<forall>xi < length x_bins. \<forall>yi < length y_bins.
        (cell_points (envs ! e) xi yi = [] \<longrightarrow>
           m ! flat_index e xi yi = PInf \<and> g ! e ! xi ! yi = Fin 0 \<and>
           ((\<forall>i' j'. xi - 1 \<le> i' \<and> i' \<le> xi + 1 \<and> i' < length x_bins \<and>
                    yi - 1 \<le> j' \<and> j' \<le> yi + 1 \<and> j' < length y_bins \<longrightarrow>
                    cell_points (envs ! e) i' j' = []) \<longrightarrow>
            out ! e ! (xi * length y_bins + yi) = Fin 0)) \<and>
        (cell_points (envs ! e) xi yi \<noteq> [] \<longrightarrow>
           (\<exists>p \<in> set (cell_points (envs ! e) xi yi). m ! flat_index e xi yi = snd (snd p)) \<and>
           (\<forall>p \<in> set (cell_points (envs ! e) xi yi). fl_le (m ! flat_index e xi yi) (snd (snd p)))) \<and>
        (\<forall>envs' m'. map_raw envs' = Inr m' \<and> e < length envs' \<and>
           hit_vec_lidar_frame (envs' ! e) = hit_vec_lidar_frame (envs ! e) \<longrightarrow>
           m' ! flat_index e xi yi = m ! flat_index e xi yi)"
  proof (intro allI impI)
    fix e xi yi
    assume e: "e < length envs" and xi: "xi < length x_bins" and yi: "yi < length y_bins"
    let ?pts = "cell_points (envs ! e) xi yi"
    have xy: "xi < 17" "yi < 27" using xi yi by (simp_all add: length_x_bins length_y_bins)
    have pe: "length (g ! e) = 17" "\<forall>i < 17. length (g ! e ! i) = 27"
      "\<forall>i < 17. \<forall>j < 27. g ! e ! i ! j = finalize offset (cell_amin (envs ! e) i j)"
      using props e by simp_all
    have v: "m ! flat_index e xi yi = cell_amin (envs ! e) xi yi" using cell e xy by simp
    have gv: "g ! e ! xi ! yi = finalize offset (cell_amin (envs ! e) xi yi)"
      using pe(3) xy by simp
    note fm = fold_fl_min_PInf[OF cell_points_finite[of "envs ! e" xi yi]]
    have 1: "m ! flat_index e xi yi = PInf \<and> g ! e ! xi ! yi = Fin 0" if "?pts = []"
      using that v gv by (simp add: cell_amin_def finalize_PInf)
    have 4: "out ! e ! (xi * length y_bins + yi) = Fin 0"
      if w: "\<forall>i' j'. xi - 1 \<le> i' \<and> i' \<le> xi + 1 \<and> i' < length x_bins \<and>
                    yi - 1 \<le> j' \<and> j' \<le> yi + 1 \<and> j' < length y_bins \<longrightarrow>
                    cell_points (envs ! e) i' j' = []"
    proof -
      from pooled_cell(1)[OF pe xy] obtain i' j' where
        b: "xi - 1 \<le> i'" "i' \<le> xi + 1" "i' < 17" "yi - 1 \<le> j'" "j' \<le> yi + 1" "j' < 27"
        and p: "max_pool2d (g ! e) ! xi ! yi = g ! e ! i' ! j'" by blast
      have "cell_points (envs ! e) i' j' = []"
        using w[rule_format, of i' j'] b by (simp add: length_x_bins length_y_bins)
      then have "cell_amin (envs ! e) i' j' = PInf" by (simp add: cell_amin_def)
      then have "g ! e ! i' ! j' = Fin 0" using pe(3) b by (simp add: finalize_PInf)
      then have "max_pool2d (g ! e) ! xi ! yi = Fin 0" using p by simp
      then show ?thesis using props e xy by (simp add: length_y_bins)
    qed
    have 2: "(\<exists>p \<in> set ?pts. m ! flat_index e xi yi = snd (snd p)) \<and>
           (\<forall>p \<in> set ?pts. fl_le (m ! flat_index e xi yi) (snd (snd p)))" if ne: "?pts \<noteq> []"
    proof
      have "cell_amin (envs ! e) xi yi \<in> set (map (\<lambda>p. snd (snd p)) ?pts)"
        using ne fm by (simp add: cell_amin_def)
      then obtain p where "p \<in> set ?pts" "cell_amin (envs ! e) xi yi = snd (snd p)"
        by auto
      then show "\<exists>p \<in> set ?pts. m ! flat_index e xi yi = snd (snd p)"
        unfolding v by blast
      have "\<forall>z \<in> set (map (\<lambda>p. snd (snd p)) ?pts). fl_le (cell_amin (envs ! e) xi yi) z"
        using fm by (simp add: cell_amin_def)
      then show "\<forall>p \<in> set ?pts. fl_le (m ! flat_index e xi yi) (snd (snd p))"
        unfolding v by simp
    qed
    have 3: "m' ! flat_index e xi yi = m ! flat_index e xi yi"
      if h: "map_raw envs' = Inr m' \<and> e < length envs' \<and>
           hit_vec_lidar_frame (envs' ! e) = hit_vec_lidar_frame (envs ! e)" for envs' m'
    proof -
      from map_raw_cell[of envs'] obtain m2 where m2: "map_raw envs' = Inr m2"
        and c2: "\<forall>e < length envs'. \<forall>xi < 17. \<forall>yi < 27.
          m2 ! flat_index e xi yi = cell_amin (envs' ! e) xi yi"
        unfolding cell_amin_def by blast
      have "m2 = m'" using m2 h by simp
      then have "m' ! flat_index e xi yi = cell_amin (envs' ! e) xi yi"
        using c2[rule_format, of e xi yi] h xy by simp
      moreover have "cell_points (envs' ! e) xi yi = cell_points (envs ! e) xi yi"
        using h by (simp add: cell_points_def)
      ultimately show ?thesis using v by (simp add: cell_amin_def)
    qed
    show "(cell_points (envs ! e) xi yi = [] \<longrightarrow>
           m ! flat_index e xi yi = PInf \<and> g ! e ! xi ! yi = Fin 0 \<and>
           ((\<forall>i' j'. xi - 1 \<le> i' \<and> i' \<le> xi + 1 \<and> i' < length x_bins \<and>
                    yi - 1 \<le> j' \<and> j' \<le> yi + 1 \<and> j' < length y_bins \<longrightarrow>
                    cell_points (envs ! e) i' j' = []) \<longrightarrow>
            out ! e ! (xi * length y_bins + yi) = Fin 0)) \<and>
        (cell_points (envs ! e) xi yi \<noteq> [] \<longrightarrow>
           (\<exists>p \<in> set (cell_points (envs ! e) xi yi). m ! flat_index e xi yi = snd (snd p)) \<and>
           (\<forall>p \<in> set (cell_points (envs ! e) xi yi). fl_le (m ! flat_index e xi yi) (snd (snd p)))) \<and>
        (\<forall>envs' m'. map_raw envs' = Inr m' \<and> e < length envs' \<and>
           hit_vec_lidar_frame (envs' ! e) = hit_vec_lidar_frame (envs ! e) \<longrightarrow>
           m' ! flat_index e xi yi = m ! flat_index e xi yi)"
    proof (intro conjI impI allI)
      assume "?pts = []"
      then show "m ! flat_index e xi yi = PInf" "g ! e ! xi ! yi = Fin 0" using 1 by simp_all
    next
      assume "\<forall>i' j'. xi - 1 \<le> i' \<and> i' \<le> xi + 1 \<and> i' < length x_bins \<and>
                    yi - 1 \<le> j' \<and> j' \<le> yi + 1 \<and> j' < length y_bins \<longrightarrow>
                    cell_points (envs ! e) i' j' = []"
      then show "out ! e ! (xi * length y_bins + yi) = Fin 0" by (rule 4)
    next
      assume "?pts \<noteq> []"
      then show "\<exists>p \<in> set ?pts. m ! flat_index e xi yi = snd (snd p)"
        "\<forall>p \<in> set ?pts. fl_le (m ! flat_index e xi yi) (snd (snd p))" using 2 by simp_all
    next
      fix envs' m'
      assume "map_raw envs' = Inr m' \<and> e < length envs' \<and>
           hit_vec_lidar_frame (envs' ! e) = hit_vec_lidar_frame (envs ! e)"
      then show "m' ! flat_index e xi yi = m ! flat_index e xi yi" by (rule 3)
    qed
  qed
  have len': "length m = length envs * length x_bins * length y_bins"
    using len by (simp add: length_x_bins length_y_bins)
  show ?thesis
    by (rule exI[of _ m], rule exI[of _ g], rule exI[of _ out]) (intro conjI m g out len' cells)
qed

text \<open>
  Two points in cell \<open>(13, 13)\<close>, at heights 1.2 and 0.3: the cell stores 0.3. Cell
  \<open>(0, 0)\<close> and its neighbours have no point: it keeps \<open>\<infinity>\<close> and is 0.0 in the returned
  tensor.
\<close>

theorem map_raw_cell_minimum_witness:
  "\<exists>m out. map_raw [example_env [straight_hit, low_hit]] = Inr m \<and>
     height_map_lidar [example_env [straight_hit, low_hit]] 0.5 = Inr out \<and>
     length m = 459 \<and> m ! 364 = Fin 0.3 \<and> m ! 0 = PInf \<and> out ! 0 ! 0 = Fin 0"
proof -
  let ?env = "example_env [straight_hit, low_hit]"
  have fr: "hit_vec_lidar_frame ?env = [(Fin 0, Fin 0, Fin 1.2), (Fin 0, Fin 0, Fin 0.3)]"
    by (simp add: example_frame straight_hit_point low_hit_point)
  have v: "valid_indices (Fin 0, Fin 0, Fin 1.2)" "valid_indices (Fin 0, Fin 0, Fin 0.3)"
    by (simp_all add: valid_indices_def range_x_def range_y_def range_z_def)
  have c13: "cell_points ?env 13 13 = [(Fin 0, Fin 0, Fin 1.2), (Fin 0, Fin 0, Fin 0.3)]"
    using v centre_cell by (simp add: cell_points_def fr)
  have cother: "cell_points ?env i' j' = []" if "i' \<le> 1" for i' j'
    using centre_cell that by (simp add: cell_points_def fr)
  have f: "flat_index 0 13 13 = 364" "flat_index 0 0 0 = 0"
    by (simp_all add: flat_index_def length_x_bins length_y_bins)
  have e0: "0 < length [?env]" by simp
  have b13: "13 < length x_bins" "13 < length y_bins" and b0: "0 < length x_bins" "0 < length y_bins"
    by (simp_all add: length_x_bins length_y_bins)
  from map_raw_cell_minimum[of "[?env]" "0.5"] obtain m g out where
    m: "map_raw [?env] = Inr m" and out: "height_map_lidar [?env] 0.5 = Inr out"
    and len: "length m = length [?env] * length x_bins * length y_bins"
    and cells: "\<forall>e < length [?env]. \<forall>xi < length x_bins. \<forall>yi < length y_bins.
        (cell_points ([?env] ! e) xi yi = [] \<longrightarrow>
           m ! flat_index e xi yi = PInf \<and> g ! e ! xi ! yi = Fin 0 \<and>
           ((\<forall>i' j'. xi - 1 \<le> i' \<and> i' \<le> xi + 1 \<and> i' < length x_bins \<and>
                    yi - 1 \<le> j' \<and> j' \<le> yi + 1 \<and> j' < length y_bins \<longrightarrow>
                    cell_points ([?env] ! e) i' j' = []) \<longrightarrow>
            out ! e ! (xi * length y_bins + yi) = Fin 0)) \<and>
        (cell_points ([?env] ! e) xi yi \<noteq> [] \<longrightarrow>
           (\<exists>p \<in> set (cell_points ([?env] ! e) xi yi). m ! flat_index e xi yi = snd (snd p)) \<and>
           (\<forall>p \<in> set (cell_points ([?env] ! e) xi yi). fl_le (m ! flat_index e xi yi) (snd (snd p)))) \<and>
        (\<forall>envs' m'. map_raw envs' = Inr m' \<and> e < length envs' \<and>
           hit_vec_lidar_frame (envs' ! e) = hit_vec_lidar_frame ([?env] ! e) \<longrightarrow>
           m' ! flat_index e xi yi = m ! flat_index e xi yi)"
    by blast
  note c0 = cells[rule_format, OF e0 b0]
  note c1 = cells[rule_format, OF e0 b13]
  have w0: "\<forall>i' j'. 0 - 1 \<le> i' \<and> i' \<le> 0 + 1 \<and> i' < length x_bins \<and>
                    0 - 1 \<le> j' \<and> j' \<le> 0 + 1 \<and> j' < length y_bins \<longrightarrow>
                    cell_points ([?env] ! 0) i' j' = []"
    using cother by simp
  have empty0: "cell_points ([?env] ! 0) 0 0 = []" using cother[of 0 0] by simp
  have m0: "m ! 0 = PInf"
    using c0[THEN conjunct1, THEN mp, OF empty0, THEN conjunct1] f by simp
  have o0: "out ! 0 ! 0 = Fin 0"
    using c0[THEN conjunct1, THEN mp, OF empty0, THEN conjunct2, THEN conjunct2, THEN mp, OF w0]
    by simp
  have ne: "cell_points ([?env] ! 0) 13 13 \<noteq> []" using c13 by simp
  have "(m ! 364 = Fin 1.2 \<or> m ! 364 = Fin 0.3) \<and> fl_le (m ! 364) (Fin 0.3)"
    using c1[THEN conjunct2, THEN conjunct1, THEN mp, OF ne] c13 f by simp
  then have m13: "m ! 364 = Fin 0.3" by auto
  have l: "length m = 459" using len by (simp add: length_x_bins length_y_bins)
  show ?thesis
    by (rule exI[of _ m], rule exI[of _ out]) (intro conjI m out l m13 m0 o0)
qed

text \<open>
  C8, as amended. One environment with four rays whose first sensor-frame point is
  \<open>(0, 0, 1.2)\<close> and whose other three points fall outside the ranges, with height
  offset 0.5: the grid has 17 by 27 cells, the result is one row of 459 values, the
  cells of rows 12 to 14 and columns 12 to 14 (cell \<open>(13, 13)\<close>, which holds the point
  \<open>(0, 0)\<close>, and its pooling neighbours) are 0.7 and all other cells are 0.0.
\<close>

theorem single_hit_scenario:
  assumes "hit_vec_lidar_frame env = [(Fin 0, Fin 0, Fin 1.2), p2, p3, p4]"
    and "\<not> valid_indices p2" "\<not> valid_indices p3" "\<not> valid_indices p4"
  shows "length x_bins = 17 \<and> length y_bins = 27 \<and>
     (\<exists>row. height_map_lidar [env] 0.5 = Inr [row] \<and> length row = 17 * 27 \<and>
        (\<forall>i < 17. \<forall>j < 27. row ! (i * 27 + j) =
           (if 12 \<le> i \<and> i \<le> 14 \<and> 12 \<le> j \<and> j \<le> 14 then Fin 0.7 else Fin 0)))"
proof -
  have ps: "filter valid_indices (hit_vec_lidar_frame env) = [(Fin 0, Fin 0, Fin 1.2)]"
    using assms centre_valid(1) by simp
  have "finalize 0.5 (fold fl_min (map (\<lambda>p. snd (snd p)) [(Fin 0, Fin 0, Fin 1.2)]) PInf) = Fin 0.7"
    by (simp add: fl_min_def finalize_Fin)
  from centre_points_output[OF ps _ this] show ?thesis
    by (simp add: length_x_bins length_y_bins)
qed

theorem single_hit_scenario_witness:
  "\<exists>row. height_map_lidar [example_env [straight_hit, far_hit, far_hit, far_hit]] 0.5 = Inr [row] \<and>
     length row = 459 \<and> row ! 364 = Fin 0.7 \<and> row ! 336 = Fin 0.7 \<and> row ! 392 = Fin 0.7 \<and>
     row ! 335 = Fin 0 \<and> row ! 0 = Fin 0"
proof -
  have fr: "hit_vec_lidar_frame (example_env [straight_hit, far_hit, far_hit, far_hit]) =
      [(Fin 0, Fin 0, Fin 1.2), (Fin (- 9.65678), Fin 0, Fin 2.59642),
       (Fin (- 9.65678), Fin 0, Fin 2.59642), (Fin (- 9.65678), Fin 0, Fin 2.59642)]"
    by (simp add: example_frame straight_hit_point far_hit_point)
  from single_hit_scenario[OF fr centre_valid(3) centre_valid(3) centre_valid(3)]
  obtain row where row: "height_map_lidar [example_env [straight_hit, far_hit, far_hit, far_hit]] 0.5 = Inr [row]"
    "length row = 17 * 27"
    and cells: "\<forall>i < 17. \<forall>j < 27. row ! (i * 27 + j) =
           (if 12 \<le> i \<and> i \<le> 14 \<and> 12 \<le> j \<and> j \<le> 14 then Fin 0.7 else Fin 0)"
    by blast
  have "row ! 364 = Fin 0.7" using cells[rule_format, of 13 13] by simp
  moreover have "row ! 336 = Fin 0.7" using cells[rule_format, of 12 12] by simp
  moreover have "row ! 392 = Fin 0.7" using cells[rule_format, of 14 14] by simp
  moreover have "row ! 335 = Fin 0" using cells[rule_format, of 12 11] by simp
  moreover have "row ! 0 = Fin 0" using cells[rule_format, of 0 0] by simp
  ultimately show ?thesis using row by simp
qed

text \<open>
  The scenario of C8 with the three other rays reporting no hit (infinite coordinates):
  the three rays are sanitized to the zero displacement, which is binned into cell
  \<open>(13, 13)\<close> with height 0, so the cell that holds \<open>(0, 0)\<close> is 0.0, not 0.7.
\<close>

theorem single_hit_scenario_counterexample:
  "hit_vec_lidar_frame
     (example_env [straight_hit, (PInf, PInf, PInf), (PInf, PInf, PInf), (PInf, PInf, PInf)]) ! 0
     = (Fin 0, Fin 0, Fin 1.2) \<and>
   (\<exists>row. height_map_lidar
       [example_env [straight_hit, (PInf, PInf, PInf), (PInf, PInf, PInf), (PInf, PInf, PInf)]] 0.5
       = Inr [row] \<and> row ! 364 = Fin 0 \<and> row ! 364 \<noteq> Fin 0.7)"
proof -
  let ?env = "example_env [straight_hit, (PInf, PInf, PInf), (PInf, PInf, PInf), (PInf, PInf, PInf)]"
  have fr: "hit_vec_lidar_frame ?env =
      [(Fin 0, Fin 0, Fin 1.2), (Fin 0, Fin 0, Fin 0), (Fin 0, Fin 0, Fin 0), (Fin 0, Fin 0, Fin 0)]"
    by (simp add: example_frame straight_hit_point example_point_missing)
  have ps: "filter valid_indices (hit_vec_lidar_frame ?env) =
      [(Fin 0, Fin 0, Fin 1.2), (Fin 0, Fin 0, Fin 0), (Fin 0, Fin 0, Fin 0), (Fin 0, Fin 0, Fin 0)]"
    unfolding fr using centre_valid by simp
  have m: "finalize 0.5 (fold fl_min (map (\<lambda>p. snd (snd p))
      [(Fin 0, Fin 0, Fin 1.2), (Fin 0, Fin 0, Fin 0), (Fin 0, Fin 0, Fin 0), (Fin 0, Fin 0, Fin 0)])
      PInf) = Fin 0"
    by (simp add: fl_min_def finalize_Fin)
  from centre_points_output[OF ps _ m] obtain row where
    row: "height_map_lidar [?env] 0.5 = Inr [row]"
    and cells: "\<forall>i < 17. \<forall>j < 27. row ! (i * 27 + j) =
        (if 12 \<le> i \<and> i \<le> 14 \<and> 12 \<le> j \<and> j \<le> 14 then Fin 0 else Fin 0)"
    by auto
  have "row ! 364 = Fin 0" using cells[rule_format, of 13 13] by simp
  then show ?thesis using row fr by simp
qed



text \<open>
  C4 as stated fails: in the example environment, the ray replaced by \<open>NaN\<close> becomes the
  zero displacement, is binned into cell \<open>(13, 13)\<close> with height 0 and lowers that cell
  from 0.7 to 0.0; without the ray the cell stays at 0.7.
\<close>

theorem nan_ray_counterexample:
  "height_map_lidar (replace_ray [example_env [straight_hit, far_hit]] 0 1 (NaN, NaN, NaN)) 0.5 \<noteq>
   height_map_lidar (remove_ray [example_env [straight_hit, far_hit]] 0 1) 0.5"
proof -
  have rep: "replace_ray [example_env [straight_hit, far_hit]] 0 1 (NaN, NaN, NaN) =
      [example_env [straight_hit, (NaN, NaN, NaN)]]"
    by (simp add: replace_ray_def example_env_def)
  have rem: "remove_ray [example_env [straight_hit, far_hit]] 0 1 = [example_env [straight_hit]]"
    by (simp add: remove_ray_def example_env_def)
  have ps1: "filter valid_indices (hit_vec_lidar_frame (example_env [straight_hit, (NaN, NaN, NaN)])) =
      [(Fin 0, Fin 0, Fin 1.2), (Fin 0, Fin 0, Fin 0)]"
    using centre_valid by (simp add: example_frame straight_hit_point example_point_missing)
  have m1: "finalize 0.5 (fold fl_min (map (\<lambda>p. snd (snd p))
      [(Fin 0, Fin 0, Fin 1.2), (Fin 0, Fin 0, Fin 0)]) PInf) = Fin 0"
    by (simp add: fl_min_def finalize_Fin)
  from centre_points_output[OF ps1 _ m1] obtain row1 where
    row1: "height_map_lidar [example_env [straight_hit, (NaN, NaN, NaN)]] 0.5 = Inr [row1]"
    and c1: "\<forall>i < 17. \<forall>j < 27. row1 ! (i * 27 + j) =
        (if 12 \<le> i \<and> i \<le> 14 \<and> 12 \<le> j \<and> j \<le> 14 then Fin 0 else Fin 0)"
    by auto
  have ps2: "filter valid_indices (hit_vec_lidar_frame (example_env [straight_hit])) =
      [(Fin 0, Fin 0, Fin 1.2)]"
    using centre_valid by (simp add: example_frame straight_hit_point)
  have m2: "finalize 0.5 (fold fl_min (map (\<lambda>p. snd (snd p)) [(Fin 0, Fin 0, Fin 1.2)]) PInf) = Fin 0.7"
    by (simp add: fl_min_def finalize_Fin)
  from centre_points_output[OF ps2 _ m2] obtain row2 where
    row2: "height_map_lidar [example_env [straight_hit]] 0.5 = Inr [row2]"
    and c2: "\<forall>i < 17. \<forall>j < 27. row2 ! (i * 27 + j) =
        (if 12 \<le> i \<and> i \<le> 14 \<and> 12 \<le> j \<and> j \<le> 14 then Fin 0.7 else Fin 0)"
    by auto
  have "row1 ! 364 = Fin 0" using c1[rule_format, of 13 13] by simp
  moreover have "row2 ! 364 = Fin 0.7" using c2[rule_format, of 13 13] by simp
  ultimately have "row1 \<noteq> row2" by auto
  then show ?thesis unfolding rep rem row1 row2 by simp
qed


text \<open>
  C4, as amended. Replacing the world coordinates of one ray by \<open>NaN\<close> gives the same
  result as a ray that hits the sensor origin: both are the zero displacement. The
  result equals that of the batch without the ray when the rotated zero displacement
  fails the range check. For a sensor orientation with finite components the rotated
  zero displacement is \<open>(0, 0, 0)\<close>, which passes the range check and is binned into
  cell \<open>(13, 13)\<close>.
\<close>

theorem nan_ray_zero_displacement:
  "\<forall>e < length envs. \<forall>r < length (ray_hits_w (envs ! e)).
     height_map_lidar (replace_ray envs e r (NaN, NaN, NaN)) offset =
       height_map_lidar (replace_ray envs e r (pos_w (envs ! e))) offset \<and>
     (\<not> valid_indices (quat_rotate_inverse (sensor_quat_w (envs ! e)) (Fin 0, Fin 0, Fin 0)) \<longrightarrow>
        height_map_lidar (replace_ray envs e r (NaN, NaN, NaN)) offset =
          height_map_lidar (remove_ray envs e r) offset) \<and>
     ((\<exists>qw qx qy qz. sensor_quat_w (envs ! e) = (Fin qw, Fin qx, Fin qy, Fin qz)) \<longrightarrow>
        hit_vec_lidar_frame (replace_ray envs e r (NaN, NaN, NaN) ! e) ! r = (Fin 0, Fin 0, Fin 0) \<and>
        valid_indices (Fin 0, Fin 0, Fin 0) \<and>
        x_index (Fin 0, Fin 0, Fin 0) = 13 \<and> y_index (Fin 0, Fin 0, Fin 0) = 13)"
proof (intro allI impI)
  fix e r
  assume e: "e < length envs" and r: "r < length (ray_hits_w (envs ! e))"
  let ?env = "envs ! e"
  let ?z = "quat_rotate_inverse (sensor_quat_w ?env) (Fin 0, Fin 0, Fin 0)"
  let ?L = "hit_vec_lidar_frame ?env"
  let ?F = "\<lambda>env. filter valid_indices (hit_vec_lidar_frame env)"
  have rl: "r < length ?L" using r by (simp add: hit_vec_lidar_frame_map)
  have 1: "height_map_lidar (replace_ray envs e r (NaN, NaN, NaN)) offset =
       height_map_lidar (replace_ray envs e r (pos_w ?env)) offset"
    unfolding replace_ray_def
    by (rule height_map_lidar_cong) (simp add: map_update nan_ray_frame origin_ray_frame)
  have 2: "height_map_lidar (replace_ray envs e r (NaN, NaN, NaN)) offset =
          height_map_lidar (remove_ray envs e r) offset" if nv: "\<not> valid_indices ?z"
    unfolding replace_ray_def remove_ray_def
    by (rule height_map_lidar_cong)
      (simp add: map_update nan_ray_frame hit_vec_lidar_frame_remove
        filter_update_invalid[of r ?L valid_indices ?z, OF rl nv])
  have 3: "hit_vec_lidar_frame (replace_ray envs e r (NaN, NaN, NaN) ! e) ! r = (Fin 0, Fin 0, Fin 0) \<and>
        valid_indices (Fin 0, Fin 0, Fin 0) \<and>
        x_index (Fin 0, Fin 0, Fin 0) = 13 \<and> y_index (Fin 0, Fin 0, Fin 0) = 13"
    if q: "\<exists>qw qx qy qz. sensor_quat_w ?env = (Fin qw, Fin qx, Fin qy, Fin qz)"
  proof -
    from q have "?z = (Fin 0, Fin 0, Fin 0)" by (auto simp: rotate_zero_finite)
    then have "hit_vec_lidar_frame (replace_ray envs e r (NaN, NaN, NaN) ! e) ! r = (Fin 0, Fin 0, Fin 0)"
      using e rl by (simp add: replace_ray_def nan_ray_frame)
    then show ?thesis using centre_valid(2) centre_cell by simp
  qed
  show "height_map_lidar (replace_ray envs e r (NaN, NaN, NaN)) offset =
       height_map_lidar (replace_ray envs e r (pos_w (envs ! e))) offset \<and>
     (\<not> valid_indices (quat_rotate_inverse (sensor_quat_w (envs ! e)) (Fin 0, Fin 0, Fin 0)) \<longrightarrow>
        height_map_lidar (replace_ray envs e r (NaN, NaN, NaN)) offset =
          height_map_lidar (remove_ray envs e r) offset) \<and>
     ((\<exists>qw qx qy qz. sensor_quat_w (envs ! e) = (Fin qw, Fin qx, Fin qy, Fin qz)) \<longrightarrow>
        hit_vec_lidar_frame (replace_ray envs e r (NaN, NaN, NaN) ! e) ! r = (Fin 0, Fin 0, Fin 0) \<and>
        valid_indices (Fin 0, Fin 0, Fin 0) \<and>
        x_index (Fin 0, Fin 0, Fin 0) = 13 \<and> y_index (Fin 0, Fin 0, Fin 0) = 13)"
    by (intro conjI impI 1 2 3)
qed


theorem nan_ray_zero_displacement_witness:
  "height_map_lidar (replace_ray [example_env [straight_hit, far_hit]] 0 1 (NaN, NaN, NaN)) 0.5 =
     height_map_lidar (replace_ray [example_env [straight_hit, far_hit]] 0 1 (Fin 0, Fin 0, Fin 0)) 0.5 \<and>
   hit_vec_lidar_frame (replace_ray [example_env [straight_hit, far_hit]] 0 1 (NaN, NaN, NaN) ! 0) ! 1 =
     (Fin 0, Fin 0, Fin 0) \<and>
   height_map_lidar
     (replace_ray [(example_env [straight_hit, far_hit])\<lparr>root_quat_w := (NaN, Fin 0, Fin 0, Fin 0)\<rparr>]
        0 1 (NaN, NaN, NaN)) 0.5 =
     height_map_lidar
       (remove_ray [(example_env [straight_hit, far_hit])\<lparr>root_quat_w := (NaN, Fin 0, Fin 0, Fin 0)\<rparr>]
          0 1) 0.5"
proof -
  let ?E = "example_env [straight_hit, far_hit]"
  let ?E' = "?E\<lparr>root_quat_w := (NaN, Fin 0, Fin 0, Fin 0)\<rparr>"
  have e0: "0 < length [?E]" "0 < length [?E']" by simp_all
  have r1: "1 < length (ray_hits_w ([?E] ! 0))" "1 < length (ray_hits_w ([?E'] ! 0))"
    by (simp_all add: example_env_def)
  have pos: "pos_w ([?E] ! 0) = (Fin 0, Fin 0, Fin 0)" by (simp add: example_env_def)
  have q: "\<exists>qw qx qy qz. sensor_quat_w ([?E] ! 0) = (Fin qw, Fin qx, Fin qy, Fin qz)"
    using example_sensor_quat[of "[straight_hit, far_hit]"] by simp
  have q': "sensor_quat_w ([?E'] ! 0) = (NaN, NaN, NaN, NaN)"
    by (simp add: example_env_def sensor_quat_w_def quat_mul_def sensor_quat_default_def
        fl_sub_def Let_def)
  have nv: "\<not> valid_indices (quat_rotate_inverse (sensor_quat_w ([?E'] ! 0)) (Fin 0, Fin 0, Fin 0))"
    unfolding q'
    by (simp add: quat_rotate_inverse_def vsub_def vadd_def vscale_def cross_def dot_def
        fl_sub_def Let_def valid_indices_def)
  note a = nan_ray_zero_displacement[of "[?E]" "0.5", rule_format, OF e0(1) r1(1)]
  note b = nan_ray_zero_displacement[of "[?E']" "0.5", rule_format, OF e0(2) r1(2)]
  note a1 = a[THEN conjunct1, unfolded pos]
  note a3 = a[THEN conjunct2, THEN conjunct2, THEN mp, OF q, THEN conjunct1]
  note b2 = b[THEN conjunct2, THEN conjunct1, THEN mp, OF nv]
  show ?thesis by (intro conjI a1 a3 b2)
qed

text \<open>
  C5 as stated fails on the name of the convention: the point on edge 1 survives the
  range check and is assigned bin 0, whose upper edge it is; a right-open convention
  puts it in bin 1.
\<close>

theorem bin_edge_counterexample:
  "valid_indices (Fin (x_bins ! 1), Fin 0, Fin 1) \<and>
   x_index (Fin (x_bins ! 1), Fin 0, Fin 1) = 0 \<and>
   right_open_bin (x_bins ! 1) x_bins = 1 \<and>
   x_index (Fin (x_bins ! 1), Fin 0, Fin 1) \<noteq> right_open_bin (x_bins ! 1) x_bins"
proof -
  have e1: "x_bins ! 1 = - 0.74" using x_bins_nth[of 1] by simp
  have v: "valid_indices (Fin (x_bins ! 1), Fin 0, Fin 1)"
    unfolding e1 by (simp add: valid_indices_def range_x_def range_y_def range_z_def)
  have xi: "x_index (Fin (x_bins ! 1), Fin 0, Fin 1) = 0"
    using x_index_edge(2)[of 1 "Fin 0" "Fin 1"] by (simp add: length_x_bins)
  have "length (takeWhile (\<lambda>b. b \<le> x_bins ! 1) x_bins) = 2"
  proof (rule length_takeWhile_eq)
    show "2 \<le> length x_bins" by (simp add: length_x_bins)
    show "\<forall>i < 2. x_bins ! i \<le> x_bins ! 1"
    proof (intro allI impI)
      fix i :: nat assume "i < 2"
      then have "i = 0 \<or> i = 1" by auto
      then show "x_bins ! i \<le> x_bins ! 1" using x_bins_nth[of 0] e1 by auto
    qed
    show "2 < length x_bins \<longrightarrow> \<not> x_bins ! 2 \<le> x_bins ! 1"
      using x_bins_nth[of 2] e1 by simp
  qed
  then have ro: "right_open_bin (x_bins ! 1) x_bins = 1" by (simp add: right_open_bin_def)
  show ?thesis using v xi ro by simp
qed

text \<open>
  C5, as amended. A point whose x lies exactly on the interior edge
  \<open>x_min + k * cell_size\<close> (\<open>1 \<le> k < Bx\<close>) is assigned bin \<open>k - 1\<close>, the bin whose upper
  edge it is. For every surviving point the bin index \<open>j\<close> is the index of the first
  edge the point does not exceed, minus one: every edge up to \<open>j\<close> is below x, and x
  does not exceed edge \<open>j + 1\<close> when that edge exists. The bins are open on the left
  and closed on the right.
\<close>

theorem bin_edge_assignment:
  "(\<forall>k y z. 1 \<le> k \<and> k < length x_bins \<longrightarrow>
      x_bins ! k = fst range_x + real k * voxel_size_xy \<and>
      x_index (Fin (x_bins ! k), y, z) = int k - 1) \<and>
   (\<forall>x y z. valid_indices (Fin x, y, z) \<longrightarrow>
      (\<exists>j < length x_bins. x_index (Fin x, y, z) = int j \<and> (\<forall>i \<le> j. x_bins ! i < x) \<and>
         (Suc j < length x_bins \<longrightarrow> x \<le> x_bins ! Suc j)))"
proof (intro conjI allI impI)
  fix k y z assume k: "1 \<le> k \<and> k < length x_bins"
  then show "x_bins ! k = fst range_x + real k * voxel_size_xy"
    using x_index_edge(1) by blast
  from k show "x_index (Fin (x_bins ! k), y, z) = int k - 1"
    using x_index_edge(2) by blast
next
  fix x y z assume "valid_indices (Fin x, y, z)"
  then show "\<exists>j < length x_bins. x_index (Fin x, y, z) = int j \<and> (\<forall>i \<le> j. x_bins ! i < x) \<and>
         (Suc j < length x_bins \<longrightarrow> x \<le> x_bins ! Suc j)"
    by (rule x_index_bin)
qed

theorem bin_edge_assignment_witness:
  "x_bins ! 3 = - 0.62 \<and> x_index (Fin (x_bins ! 3), Fin 0, Fin 1) = 2 \<and>
   x_bins ! 16 = 0.16 \<and> x_index (Fin (x_bins ! 16), Fin 0, Fin 1) = 15 \<and>
   (\<exists>j < 17. x_index (Fin 0.2, Fin 0, Fin 1) = int j \<and> x_bins ! j < 0.2)"
proof -
  note t = bin_edge_assignment
  have k3: "1 \<le> (3::nat) \<and> 3 < length x_bins" and k16: "1 \<le> (16::nat) \<and> 16 < length x_bins"
    by (simp_all add: length_x_bins)
  note a = t[THEN conjunct1, rule_format, OF k3, of "Fin 0" "Fin 1"]
  note b = t[THEN conjunct1, rule_format, OF k16, of "Fin 0" "Fin 1"]
  have a1: "x_bins ! 3 = - 0.62"
    using a[THEN conjunct1] by (simp add: range_x_def voxel_size_xy_def)
  have a2: "x_index (Fin (x_bins ! 3), Fin 0, Fin 1) = 2"
    using a[THEN conjunct2] by simp
  have b1: "x_bins ! 16 = 0.16"
    using b[THEN conjunct1] by (simp add: range_x_def voxel_size_xy_def)
  have b2: "x_index (Fin (x_bins ! 16), Fin 0, Fin 1) = 15"
    using b[THEN conjunct2] by simp
  have v: "valid_indices (Fin 0.2, Fin 0, Fin 1)"
    by (simp add: valid_indices_def range_x_def range_y_def range_z_def)
  from t[THEN conjunct2, rule_format, OF v] obtain j where
    j: "j < length x_bins" "x_index (Fin 0.2, Fin 0, Fin 1) = int j" "\<forall>i \<le> j. x_bins ! i < 0.2"
    by blast
  have c: "\<exists>j < 17. x_index (Fin 0.2, Fin 0, Fin 1) = int j \<and> x_bins ! j < 0.2"
    using j by (auto simp: length_x_bins)
  show ?thesis by (intro conjI a1 a2 b1 b2 c)
qed

text \<open>
  C9. A call of \<^verbatim>\<open>height_map_lidar\<close> on a store that holds the scene buffers returns
  the value of the function on those buffers and leaves every object that was in the
  store before the call as it was, the buffers it read included (its in-place writes go
  to the two tensors it allocated itself); it leaves the deque \<^verbatim>\<open>prev_height_maps\<close> as
  it was and its result does not depend on the content of the deque; a second call in
  the state left by the first returns the same result.
\<close>

theorem height_map_lidar_call_frame:
  assumes "sensor < length (store s)" and "store s ! sensor = Buffers envs"
  shows "fst (height_map_lidar_call sensor offset s) = height_map_lidar envs offset \<and>
     take (length (store s)) (store (snd (height_map_lidar_call sensor offset s))) = store s \<and>
     store (snd (height_map_lidar_call sensor offset s)) ! sensor = Buffers envs \<and>
     prev_height_maps (snd (height_map_lidar_call sensor offset s)) = prev_height_maps s \<and>
     fst (height_map_lidar_call sensor offset (s\<lparr>prev_height_maps := d\<rparr>)) =
       fst (height_map_lidar_call sensor offset s) \<and>
     fst (height_map_lidar_call sensor offset (snd (height_map_lidar_call sensor offset s))) =
       fst (height_map_lidar_call sensor offset s)"
proof -
  note c = height_map_lidar_call_eq[OF assms(2), of offset]
  let ?s' = "snd (height_map_lidar_call sensor offset s)"
  have r: "fst (height_map_lidar_call sensor offset s) = height_map_lidar envs offset"
    unfolding c by simp
  have t: "take (length (store s)) (store ?s') = store s"
    unfolding c by simp
  have b: "store ?s' ! sensor = Buffers envs"
    unfolding c using assms by (simp add: nth_append)
  have p: "prev_height_maps ?s' = prev_height_maps s"
    unfolding c by simp
  have "store (s\<lparr>prev_height_maps := d\<rparr>) ! sensor = Buffers envs" using assms(2) by simp
  from height_map_lidar_call_eq[OF this, of offset]
  have d: "fst (height_map_lidar_call sensor offset (s\<lparr>prev_height_maps := d\<rparr>)) =
       fst (height_map_lidar_call sensor offset s)"
    unfolding r by simp
  from height_map_lidar_call_eq[OF b, of offset]
  have a: "fst (height_map_lidar_call sensor offset ?s') =
       fst (height_map_lidar_call sensor offset s)"
    unfolding r by simp
  show ?thesis by (intro conjI r t b p d a)
qed

theorem height_map_lidar_call_frame_witness:
  "take 1 (store (snd (height_map_lidar_call 0 0.5
      \<lparr>store = [Buffers [example_env [straight_hit, (PInf, PInf, PInf)]]],
        prev_height_maps = [[[Fin 1]]]\<rparr>))) =
     [Buffers [example_env [straight_hit, (PInf, PInf, PInf)]]] \<and>
   prev_height_maps (snd (height_map_lidar_call 0 0.5
      \<lparr>store = [Buffers [example_env [straight_hit, (PInf, PInf, PInf)]]],
        prev_height_maps = [[[Fin 1]]]\<rparr>)) = [[[Fin 1]]] \<and>
   fst (height_map_lidar_call 0 0.5
      \<lparr>store = [Buffers [example_env [straight_hit, (PInf, PInf, PInf)]]],
        prev_height_maps = [[[Fin 1]]]\<rparr>) =
     height_map_lidar [example_env [straight_hit, (PInf, PInf, PInf)]] 0.5"
  using height_map_lidar_call_frame
    [of 0 "\<lparr>store = [Buffers [example_env [straight_hit, (PInf, PInf, PInf)]]],
              prev_height_maps = [[[Fin 1]]]\<rparr>"
        "[example_env [straight_hit, (PInf, PInf, PInf)]]" "0.5" "[]"]
  by simp

end
